theory Spec2Isabelle
  imports Complex_Main
begin

section \<open>Python primitives used by \<open>tools/compile_periodic.py\<close>\<close>

text \<open>
  A Python \<open>dict\<close> keeps its keys in insertion order, and the order shows in the JSON
  text that the script prints.  A dict is therefore an association list with distinct
  keys; \<open>d[k] = v\<close> replaces the value in place when \<open>k\<close> is already a key and appends
  the pair otherwise.
\<close>

fun dict_set :: "'k \<Rightarrow> 'v \<Rightarrow> ('k \<times> 'v) list \<Rightarrow> ('k \<times> 'v) list" where
  "dict_set k v [] = [(k, v)]"
| "dict_set k v (p # ps) = (if fst p = k then (k, v) # ps else p # dict_set k v ps)"

text \<open>\<open>str(n)\<close> for a Python \<open>int\<close>: the decimal numeral, with a minus sign when negative.\<close>

definition digit_char :: "nat \<Rightarrow> char" where
  "digit_char d = ''0123456789'' ! (d mod 10)"

fun str_nat :: "nat \<Rightarrow> string" where
  "str_nat n = (if n < 10 then [digit_char n] else str_nat (n div 10) @ [digit_char (n mod 10)])"

declare str_nat.simps [simp del]

definition str_int :: "int \<Rightarrow> string" where
  "str_int i = (if i < 0 then CHR ''-'' # str_nat (nat (- i)) else str_nat (nat i))"

text \<open>
  Truth value of a number that may be \<open>None\<close>: \<open>None\<close> and zero are falsy, every other
  number is truthy.  Floats are modelled by the real number they denote (the tables hold
  finite numbers, on which \<open>==\<close>, \<open><\<close> and \<open>>\<close> compare the denoted values).
\<close>

definition truthy :: "real option \<Rightarrow> bool" where
  "truthy v = (case v of None \<Rightarrow> False | Some x \<Rightarrow> x \<noteq> 0)"

definition truthy_int :: "int option \<Rightarrow> bool" where
  "truthy_int v = (case v of None \<Rightarrow> False | Some x \<Rightarrow> x \<noteq> 0)"

section \<open>The two source tables\<close>

text \<open>
  \<open>periodictable.elements\<close> is iterated as a sequence of elements; an element has
  \<open>symbol\<close> and \<open>number\<close> and is itself iterated as a sequence of isotopes, each with
  \<open>mass\<close>, \<open>isotope\<close> (the mass number) and \<open>abundance\<close>.
\<close>

record isotope_src =
  mass :: real
  isotope :: int
  abundance :: real

record element_src =
  symbol :: string
  number :: int
  isos :: "isotope_src list"

text \<open>
  \<open>_nmr_data\<close> maps a symbol to a dict from \<open>str(A)\<close> to a dict that may hold the keys
  \<open>I\<close>, \<open>gamma\<close> and \<open>Q\<close>.  The script reads each of the three with \<open>.get(key, None)\<close>, so the
  inner dict is the triple of the three results.
\<close>

record nmr_entry =
  nmr_I :: "real option"
  nmr_gamma :: "real option"
  nmr_Q :: "real option"

type_synonym nmr_table = "string \<rightharpoonup> (string \<rightharpoonup> nmr_entry)"

definition no_entry :: nmr_entry where
  "no_entry = \<lparr>nmr_I = None, nmr_gamma = None, nmr_Q = None\<rparr>"

section \<open>The isotope loop\<close>

text \<open>The dict stored under \<open>data['isotopes'][A]\<close>.\<close>

record iso_rec =
  rec_A :: int
  rec_mass :: real
  rec_abundance :: real
  rec_spin :: "real option"
  rec_gamma :: "real option"
  rec_Q :: "real option"

text \<open>The variables that the inner loop updates, with \<open>data['isotopes']\<close>.\<close>

record scan =
  most_iso :: "int option"
  most_iso_ab :: real
  most_NMR_iso :: "int option"
  most_NMR_iso_ab :: real
  most_Q_iso :: "int option"
  most_Q_iso_ab :: real
  isotopes :: "(int \<times> iso_rec) list"

definition scan_init :: scan where
  "scan_init = \<lparr>most_iso = None, most_iso_ab = 0,
                 most_NMR_iso = None, most_NMR_iso_ab = 0,
                 most_Q_iso = None, most_Q_iso_ab = 0,
                 isotopes = []\<rparr>"

definition Mu_mass :: real where
  "Mu_mass = 0.113428913072988"

text \<open>The entry \<open>nmr.get(str(A), {})\<close> read for one isotope.\<close>

definition iso_nmr :: "(string \<rightharpoonup> nmr_entry) \<Rightarrow> isotope_src \<Rightarrow> nmr_entry" where
  "iso_nmr nmr i = (case nmr (str_int (isotope i)) of None \<Rightarrow> no_entry | Some e \<Rightarrow> e)"

text \<open>
  An isotope passes the two \<open>continue\<close> statements of the loop body when its abundance is
  not zero and, if it has no spin, its abundance is not below the lower of the NMR and
  the quadrupole maximum of the moment.
\<close>

definition kept :: "(string \<rightharpoonup> nmr_entry) \<Rightarrow> scan \<Rightarrow> isotope_src \<Rightarrow> bool" where
  "kept nmr st i \<longleftrightarrow>
     abundance i \<noteq> 0 \<and>
     \<not> (nmr_I (iso_nmr nmr i) = None \<and>
        abundance i < min (most_NMR_iso_ab st) (most_Q_iso_ab st))"

text \<open>The spin after \<open>spin = 0\<close> has replaced a missing one.\<close>

definition spin_of :: "(string \<rightharpoonup> nmr_entry) \<Rightarrow> isotope_src \<Rightarrow> real option" where
  "spin_of nmr i = (case nmr_I (iso_nmr nmr i) of None \<Rightarrow> Some 0 | Some s \<Rightarrow> Some s)"

text \<open>One pass through the body of \<open>for iso in el\<close>.\<close>

definition iso_step :: "string \<Rightarrow> (string \<rightharpoonup> nmr_entry) \<Rightarrow> scan \<Rightarrow> isotope_src \<Rightarrow> scan" where
  "iso_step symb nmr st i =
     (let m = (if symb = ''Mu'' then Mu_mass else mass i);
          A = isotope i;
          ab = abundance i
      in if ab = 0 then st
         else
           let e = iso_nmr nmr i;
               spin = nmr_I e;
               gamma = nmr_gamma e;
               Q = nmr_Q e
           in if spin = None \<and> ab < min (most_NMR_iso_ab st) (most_Q_iso_ab st) then st
              else
                let spin = (if spin = None then Some 0 else spin);
                    st1 = (if ab > most_iso_ab st
                           then st\<lparr>most_iso := Some A, most_iso_ab := ab\<rparr> else st);
                    st2 = (if ab > most_NMR_iso_ab st1 \<and> truthy spin
                           then st1\<lparr>most_NMR_iso := Some A, most_NMR_iso_ab := ab\<rparr> else st1);
                    st3 = (if ab > most_Q_iso_ab st2 \<and> truthy Q
                           then st2\<lparr>most_Q_iso := Some A, most_Q_iso_ab := ab\<rparr> else st2)
                in st3\<lparr>isotopes :=
                     dict_set A \<lparr>rec_A = A, rec_mass = m, rec_abundance = ab,
                                 rec_spin = spin, rec_gamma = gamma, rec_Q = Q\<rparr>
                       (isotopes st3)\<rparr>)"

text \<open>The whole loop \<open>for iso in el\<close>, from a given state.\<close>

definition scan_isotopes :: "string \<Rightarrow> (string \<rightharpoonup> nmr_entry) \<Rightarrow> scan \<Rightarrow> isotope_src list \<Rightarrow> scan" where
  "scan_isotopes symb nmr st xs = foldl (iso_step symb nmr) st xs"

section \<open>The element loop\<close>

record data =
  d_symbol :: string
  d_Z :: int
  d_isotopes :: "(int \<times> iso_rec) list"
  maxiso :: "string option"
  maxiso_NMR :: "string option"
  maxiso_Q :: "string option"

text \<open>The neutron is renamed to muonium.\<close>

definition out_symbol :: "string \<Rightarrow> string" where
  "out_symbol s = (if s = ''n'' then ''Mu'' else s)"

text \<open>\<open>str(x) if x else None\<close> for a pointer \<open>x\<close>.\<close>

definition label :: "int option \<Rightarrow> string option" where
  "label p = (if truthy_int p then map_option str_int p else None)"

text \<open>\<open>_nmr_data.get(sym, {})\<close>.\<close>

definition nmr_for :: "nmr_table \<Rightarrow> string \<Rightarrow> (string \<rightharpoonup> nmr_entry)" where
  "nmr_for nmr_data symb = (case nmr_data symb of None \<Rightarrow> Map.empty | Some t \<Rightarrow> t)"

text \<open>The scan of one element: the state after its isotope loop.\<close>

definition element_scan :: "nmr_table \<Rightarrow> element_src \<Rightarrow> scan" where
  "element_scan nmr_data el =
     (let symb = out_symbol (symbol el);
          nmr = nmr_for nmr_data symb
      in scan_isotopes symb nmr scan_init (isos el))"

text \<open>
  What the body of \<open>for el in elements\<close> stores into \<open>element_data\<close>: nothing when
  \<open>most_iso is None\<close>, the pair of key and record otherwise.
\<close>

definition element_record :: "nmr_table \<Rightarrow> element_src \<Rightarrow> (string \<times> data) option" where
  "element_record nmr_data el =
     (let symb = out_symbol (symbol el);
          st = element_scan nmr_data el
      in if most_iso st = None then None
         else Some (symb, \<lparr>d_symbol = symb, d_Z = number el, d_isotopes = isotopes st,
                          maxiso = label (most_iso st),
                          maxiso_NMR = label (most_NMR_iso st),
                          maxiso_Q = label (most_Q_iso st)\<rparr>))"

definition element_step :: "nmr_table \<Rightarrow> (string \<times> data) list \<Rightarrow> element_src \<Rightarrow> (string \<times> data) list" where
  "element_step nmr_data ed el =
     (case element_record nmr_data el of None \<Rightarrow> ed | Some (symb, d) \<Rightarrow> dict_set symb d ed)"

definition element_data :: "element_src list \<Rightarrow> nmr_table \<Rightarrow> (string \<times> data) list" where
  "element_data elements nmr_data = foldl (element_step nmr_data) [] elements"

section \<open>The printed text\<close>

text \<open>
  The last statements of the script: \<open>template.format(jsonstr)\<close> and \<open>print\<close>.  The
  string \<open>jsonstr\<close> is the result of \<open>json.dumps(element_data, indent=2)\<close>, a call into
  Python's library, and is taken as it is.
\<close>

definition newline :: char where
  "newline = CHR 0x0A"

definition template :: string where
  "template = ''const nmrData = {0};'' @ [newline, newline] @ ''export default nmrData;'' @ [newline]"

text \<open>
  \<open>t.format(a)\<close> for a template whose only braces are replacement fields \<open>{0}\<close>: each
  field is replaced by the argument, which is not scanned itself.
\<close>

fun format0 :: "string \<Rightarrow> string \<Rightarrow> string" where
  "format0 [] a = []"
| "format0 (c # t) a =
     (if take 3 (c # t) = ''{0}'' then a @ format0 (drop 2 t) a else c # format0 t a)"

text \<open>\<open>print(s)\<close> writes \<open>s\<close> and a newline to standard output.\<close>

definition print_text :: "string \<Rightarrow> string" where
  "print_text s = s @ [newline]"

text \<open>All that the script writes to standard output, given \<open>jsonstr\<close>.\<close>

definition emitted :: "string \<Rightarrow> string" where
  "emitted jsonstr = print_text (format0 template jsonstr)"

text \<open>
  The text as the specification words it: \<open>const nmrData = \<close>, the JSON encoding, a
  semicolon, a blank line, and the line \<open>export default nmrData;\<close>.
\<close>

definition spec_shape :: "string \<Rightarrow> string" where
  "spec_shape jsonstr =
     ''const nmrData = '' @ jsonstr @ '';'' @ [newline] @ [newline] @
     ''export default nmrData;'' @ [newline]"

section \<open>The JSON payload\<close>

text \<open>
  The value \<open>element_data\<close> as a Python object: \<open>None\<close>, numbers, strings, and dicts
  whose keys are strings or (in the \<open>isotopes\<close> dicts) integers.  Python's \<open>==\<close> does not
  tell an \<open>int\<close> from a \<open>float\<close> of the same value, so one constructor holds both.
\<close>

datatype pykey = KInt int | KStr string

datatype pyval = PNone | PNum real | PStr string | PDict "(pykey \<times> pyval) list"

definition py_opt :: "real option \<Rightarrow> pyval" where
  "py_opt v = (case v of None \<Rightarrow> PNone | Some x \<Rightarrow> PNum x)"

definition py_label :: "string option \<Rightarrow> pyval" where
  "py_label v = (case v of None \<Rightarrow> PNone | Some s \<Rightarrow> PStr s)"

definition py_of_iso_rec :: "iso_rec \<Rightarrow> pyval" where
  "py_of_iso_rec r =
     PDict [(KStr ''A'', PNum (of_int (rec_A r))),
            (KStr ''mass'', PNum (rec_mass r)),
            (KStr ''abundance'', PNum (rec_abundance r)),
            (KStr ''spin'', py_opt (rec_spin r)),
            (KStr ''gamma'', py_opt (rec_gamma r)),
            (KStr ''Q'', py_opt (rec_Q r))]"

definition py_of_data :: "data \<Rightarrow> pyval" where
  "py_of_data d =
     PDict [(KStr ''symbol'', PStr (d_symbol d)),
            (KStr ''Z'', PNum (of_int (d_Z d))),
            (KStr ''isotopes'', PDict (map (\<lambda>p. (KInt (fst p), py_of_iso_rec (snd p))) (d_isotopes d))),
            (KStr ''maxiso'', py_label (maxiso d)),
            (KStr ''maxiso_NMR'', py_label (maxiso_NMR d)),
            (KStr ''maxiso_Q'', py_label (maxiso_Q d))]"

definition py_of_element_data :: "(string \<times> data) list \<Rightarrow> pyval" where
  "py_of_element_data ed = PDict (map (\<lambda>p. (KStr (fst p), py_of_data (snd p))) ed)"

text \<open>
  Python's \<open>==\<close> on these objects.  Two dicts are equal when they have the same number
  of keys and every key of the first is a key of the second with an equal value; the
  order of the keys plays no part.  An integer key and a string key are never equal.
\<close>

fun py_eq :: "pyval \<Rightarrow> pyval \<Rightarrow> bool" where
  "py_eq PNone w = (w = PNone)"
| "py_eq (PNum x) w = (w = PNum x)"
| "py_eq (PStr s) w = (w = PStr s)"
| "py_eq (PDict a) w =
     (case w of
        PDict b \<Rightarrow>
          length a = length b \<and>
          list_all (\<lambda>p. case map_of b (fst p) of None \<Rightarrow> False | Some v' \<Rightarrow> py_eq (snd p) v') a
      | _ \<Rightarrow> False)"

text \<open>
  The JSON document that \<open>json.dumps\<close> writes and \<open>json.loads\<close> reads, as a tree: the
  members of an object are a sequence of pairs of a string and a value.  A number is
  written so that reading it gives the same number back.  \<open>json.dumps\<close> turns every dict
  key into a string: a string stays, an integer \<open>n\<close> becomes \<open>str(n)\<close>.
\<close>

datatype json = JNull | JNum real | JStr string | JObj "(string \<times> json) list"

fun key_text :: "pykey \<Rightarrow> string" where
  "key_text (KInt n) = str_int n"
| "key_text (KStr s) = s"

primrec json_dumps :: "pyval \<Rightarrow> json" where
  "json_dumps PNone = JNull"
| "json_dumps (PNum x) = JNum x"
| "json_dumps (PStr s) = JStr s"
| "json_dumps (PDict kvs) = JObj (map (map_prod key_text json_dumps) kvs)"

text \<open>
  \<open>json.loads\<close> builds a dict from the members of an object in their order, so that
  of two members with the same name the later value stays.
\<close>

definition dict_of_pairs :: "('k \<times> 'v) list \<Rightarrow> ('k \<times> 'v) list" where
  "dict_of_pairs ps = foldl (\<lambda>d p. dict_set (fst p) (snd p) d) [] ps"

primrec json_loads :: "json \<Rightarrow> pyval" where
  "json_loads JNull = PNone"
| "json_loads (JNum x) = PNum x"
| "json_loads (JStr s) = PStr s"
| "json_loads (JObj kvs) = PDict (dict_of_pairs (map (map_prod KStr json_loads) kvs))"

text \<open>A Python object with every dict key replaced by the string that \<open>json.dumps\<close> writes for it.\<close>

primrec str_keys :: "pyval \<Rightarrow> pyval" where
  "str_keys PNone = PNone"
| "str_keys (PNum x) = PNum x"
| "str_keys (PStr s) = PStr s"
| "str_keys (PDict kvs) = PDict (map (map_prod (\<lambda>k. KStr (key_text k)) str_keys) kvs)"

text \<open>Every dict of the object, at any depth, has keys with pairwise different strings.\<close>

fun key_texts_distinct :: "pyval \<Rightarrow> bool" where
  "key_texts_distinct (PDict kvs) =
     (distinct (map (\<lambda>p. key_text (fst p)) kvs) \<and>
      list_all (\<lambda>p. key_texts_distinct (snd p)) kvs)"
| "key_texts_distinct v = True"

text \<open>
  The object \<open>element_data\<close> with the integer keys of the \<open>isotopes\<close> dicts replaced by
  their decimal strings, and everything else as it is.
\<close>

definition py_reloaded_data :: "data \<Rightarrow> pyval" where
  "py_reloaded_data d =
     PDict [(KStr ''symbol'', PStr (d_symbol d)),
            (KStr ''Z'', PNum (of_int (d_Z d))),
            (KStr ''isotopes'',
               PDict (map (\<lambda>p. (KStr (str_int (fst p)), py_of_iso_rec (snd p))) (d_isotopes d))),
            (KStr ''maxiso'', py_label (maxiso d)),
            (KStr ''maxiso_NMR'', py_label (maxiso_NMR d)),
            (KStr ''maxiso_Q'', py_label (maxiso_Q d))]"

definition py_reloaded :: "(string \<times> data) list \<Rightarrow> pyval" where
  "py_reloaded ed = PDict (map (\<lambda>p. (KStr (fst p), py_reloaded_data (snd p))) ed)"

section \<open>Notions used in the statements\<close>

text \<open>The record that the loop body stores for an isotope it keeps.\<close>

definition new_rec :: "string \<Rightarrow> (string \<rightharpoonup> nmr_entry) \<Rightarrow> isotope_src \<Rightarrow> iso_rec" where
  "new_rec symb nmr i =
     \<lparr>rec_A = isotope i, rec_mass = (if symb = ''Mu'' then Mu_mass else mass i),
      rec_abundance = abundance i, rec_spin = spin_of nmr i,
      rec_gamma = nmr_gamma (iso_nmr nmr i), rec_Q = nmr_Q (iso_nmr nmr i)\<rparr>"

text \<open>An element without its isotopes of abundance zero.\<close>

definition drop_zero :: "element_src \<Rightarrow> element_src" where
  "drop_zero el = el\<lparr>isos := filter (\<lambda>i. abundance i \<noteq> 0) (isos el)\<rparr>"

text \<open>
  Whether the loop keeps the isotope at position \<open>j\<close> of the list: the test \<open>kept\<close> in
  the state that the loop has reached after the isotopes before it.
\<close>

definition kept_at :: "string \<Rightarrow> (string \<rightharpoonup> nmr_entry) \<Rightarrow> isotope_src list \<Rightarrow> nat \<Rightarrow> bool" where
  "kept_at symb nmr xs j \<longleftrightarrow> kept nmr (scan_isotopes symb nmr scan_init (take j xs)) (xs ! j)"

text \<open>
  Position \<open>k\<close> is the first of the best among the positions that satisfy \<open>q\<close>: it
  satisfies \<open>q\<close>, no position that satisfies \<open>q\<close> has a higher abundance, and no earlier
  one has the same abundance.
\<close>

definition first_best :: "(nat \<Rightarrow> bool) \<Rightarrow> isotope_src list \<Rightarrow> nat \<Rightarrow> bool" where
  "first_best q xs k \<longleftrightarrow>
     k < length xs \<and> q k \<and>
     (\<forall>j < length xs. q j \<longrightarrow> abundance (xs ! j) \<le> abundance (xs ! k)) \<and>
     (\<forall>j < k. q j \<longrightarrow> abundance (xs ! j) \<noteq> abundance (xs ! k))"

text \<open>
  A pointer \<open>ptr\<close> with its abundance \<open>v\<close> follows the isotopes of \<open>xs\<close> that satisfy \<open>q\<close>:
  \<open>v\<close> bounds their abundances, and \<open>ptr\<close> is \<open>None\<close> with \<open>v = 0\<close> or names the first
  position whose abundance is \<open>v\<close>.
\<close>

definition follows :: "(nat \<Rightarrow> bool) \<Rightarrow> int option \<Rightarrow> real \<Rightarrow> isotope_src list \<Rightarrow> bool" where
  "follows q ptr v xs \<longleftrightarrow>
     (\<forall>j < length xs. q j \<longrightarrow> abundance (xs ! j) \<le> v) \<and>
     (case ptr of
        None \<Rightarrow> v = 0
      | Some A \<Rightarrow>
          0 < v \<and>
          (\<exists>k < length xs. q k \<and> isotope (xs ! k) = A \<and> abundance (xs ! k) = v \<and>
             (\<forall>j < k. q j \<longrightarrow> abundance (xs ! j) < v)))"

text \<open>The same notions for an element of the table, with the NMR entries of its symbol.\<close>

definition el_nmr :: "nmr_table \<Rightarrow> element_src \<Rightarrow> (string \<rightharpoonup> nmr_entry)" where
  "el_nmr nmr_data el = nmr_for nmr_data (out_symbol (symbol el))"

definition retained_at :: "nmr_table \<Rightarrow> element_src \<Rightarrow> nat \<Rightarrow> bool" where
  "retained_at nmr_data el j \<longleftrightarrow>
     kept_at (out_symbol (symbol el)) (el_nmr nmr_data el) (isos el) j"

definition spin_at :: "nmr_table \<Rightarrow> element_src \<Rightarrow> nat \<Rightarrow> real option" where
  "spin_at nmr_data el j = spin_of (el_nmr nmr_data el) (isos el ! j)"

definition Q_at :: "nmr_table \<Rightarrow> element_src \<Rightarrow> nat \<Rightarrow> real option" where
  "Q_at nmr_data el j = nmr_Q (iso_nmr (el_nmr nmr_data el) (isos el ! j))"

section \<open>Sample tables\<close>

text \<open>
  A small element table and a small NMR table in the shape of the two sources: the
  neutron, hydrogen with one isotope of abundance zero, technetium with no natural
  isotope, and chlorine with NMR data for one of its two isotopes only.
\<close>

definition tritium :: isotope_src where
  "tritium = \<lparr>mass = 3.0160492779, isotope = 3, abundance = 0\<rparr>"

definition chlorine_35 :: isotope_src where
  "chlorine_35 = \<lparr>mass = 34.968852682, isotope = 35, abundance = 75.76\<rparr>"

definition chlorine_37 :: isotope_src where
  "chlorine_37 = \<lparr>mass = 36.965902602, isotope = 37, abundance = 24.24\<rparr>"

definition sample_elements :: "element_src list" where
  "sample_elements =
     [\<lparr>symbol = ''n'', number = 0,
        isos = [\<lparr>mass = 1.00866491597, isotope = 1, abundance = 100\<rparr>]\<rparr>,
      \<lparr>symbol = ''H'', number = 1,
        isos = [\<lparr>mass = 1.00782503223, isotope = 1, abundance = 99.9885\<rparr>,
                \<lparr>mass = 2.01410177812, isotope = 2, abundance = 0.0115\<rparr>,
                tritium]\<rparr>,
      \<lparr>symbol = ''Cl'', number = 17,
        isos = [chlorine_35, chlorine_37]\<rparr>,
      \<lparr>symbol = ''Tc'', number = 43,
        isos = [\<lparr>mass = 97.9072124, isotope = 98, abundance = 0\<rparr>]\<rparr>]"

definition sample_nmr :: nmr_table where
  "sample_nmr =
     [''H'' \<mapsto>
        [''1'' \<mapsto> \<lparr>nmr_I = Some 0.5, nmr_gamma = Some 267522128, nmr_Q = Some 0\<rparr>,
         ''2'' \<mapsto> \<lparr>nmr_I = Some 1, nmr_gamma = Some 41066279, nmr_Q = Some 2.86\<rparr>],
      ''Cl'' \<mapsto>
        [''35'' \<mapsto> \<lparr>nmr_I = Some 1.5, nmr_gamma = Some 26241980, nmr_Q = Some (- 81.65)\<rparr>]]"

text \<open>The isotopes and the element of the scenario of the retention rule.\<close>

definition scenario_a :: isotope_src where
  "scenario_a = \<lparr>mass = 1, isotope = 1, abundance = 0.6\<rparr>"

definition scenario_b :: isotope_src where
  "scenario_b = \<lparr>mass = 2, isotope = 2, abundance = 0.9\<rparr>"

definition scenario_element :: element_src where
  "scenario_element = \<lparr>symbol = ''X'', number = 1, isos = [scenario_a, scenario_b]\<rparr>"

definition scenario_nmr :: nmr_table where
  "scenario_nmr = [''X'' \<mapsto> [''1'' \<mapsto> \<lparr>nmr_I = Some 0.5, nmr_gamma = None, nmr_Q = None\<rparr>]]"

text \<open>The records expected for the sample tables.\<close>

definition sample_Mu_1 :: iso_rec where
  "sample_Mu_1 = \<lparr>rec_A = 1, rec_mass = 0.113428913072988, rec_abundance = 100,
                   rec_spin = Some 0, rec_gamma = None, rec_Q = None\<rparr>"

definition sample_H_1 :: iso_rec where
  "sample_H_1 = \<lparr>rec_A = 1, rec_mass = 1.00782503223, rec_abundance = 99.9885,
                  rec_spin = Some 0.5, rec_gamma = Some 267522128, rec_Q = Some 0\<rparr>"

definition sample_H_2 :: iso_rec where
  "sample_H_2 = \<lparr>rec_A = 2, rec_mass = 2.01410177812, rec_abundance = 0.0115,
                  rec_spin = Some 1, rec_gamma = Some 41066279, rec_Q = Some 2.86\<rparr>"

definition sample_Cl_35 :: iso_rec where
  "sample_Cl_35 = \<lparr>rec_A = 35, rec_mass = 34.968852682, rec_abundance = 75.76,
                    rec_spin = Some 1.5, rec_gamma = Some 26241980, rec_Q = Some (- 81.65)\<rparr>"

definition sample_Mu :: data where
  "sample_Mu = \<lparr>d_symbol = ''Mu'', d_Z = 0, d_isotopes = [(1, sample_Mu_1)],
                 maxiso = Some ''1'', maxiso_NMR = None, maxiso_Q = None\<rparr>"

definition sample_H :: data where
  "sample_H = \<lparr>d_symbol = ''H'', d_Z = 1, d_isotopes = [(1, sample_H_1), (2, sample_H_2)],
                maxiso = Some ''1'', maxiso_NMR = Some ''1'', maxiso_Q = Some ''2''\<rparr>"

definition sample_Cl :: data where
  "sample_Cl = \<lparr>d_symbol = ''Cl'', d_Z = 17, d_isotopes = [(35, sample_Cl_35)],
                 maxiso = Some ''35'', maxiso_NMR = Some ''35'', maxiso_Q = Some ''35''\<rparr>"

text \<open>An element with two isotopes of the same abundance, both with spin and quadrupole moment.\<close>

definition tie_element :: element_src where
  "tie_element =
     \<lparr>symbol = ''Br'', number = 35,
      isos = [\<lparr>mass = 78.9183376, isotope = 79, abundance = 50\<rparr>,
              \<lparr>mass = 80.9162897, isotope = 81, abundance = 50\<rparr>]\<rparr>"

definition tie_nmr :: nmr_table where
  "tie_nmr =
     [''Br'' \<mapsto>
        [''79'' \<mapsto> \<lparr>nmr_I = Some 1.5, nmr_gamma = Some 67256160, nmr_Q = Some 313\<rparr>,
         ''81'' \<mapsto> \<lparr>nmr_I = Some 1.5, nmr_gamma = Some 72497790, nmr_Q = Some 262\<rparr>]]"

definition tie_Br :: data where
  "tie_Br =
     \<lparr>d_symbol = ''Br'', d_Z = 35,
      d_isotopes =
        [(79, \<lparr>rec_A = 79, rec_mass = 78.9183376, rec_abundance = 50,
                rec_spin = Some 1.5, rec_gamma = Some 67256160, rec_Q = Some 313\<rparr>),
         (81, \<lparr>rec_A = 81, rec_mass = 80.9162897, rec_abundance = 50,
                rec_spin = Some 1.5, rec_gamma = Some 72497790, rec_Q = Some 262\<rparr>)],
      maxiso = Some ''79'', maxiso_NMR = Some ''79'', maxiso_Q = Some ''79''\<rparr>"

section \<open>Facts about the model\<close>

subsection \<open>Facts about dicts\<close>

lemma set_dict_set: "set (dict_set k v d) \<subseteq> insert (k, v) (set d)"
  by (induction d) auto

lemma keys_dict_set: "fst ` set (dict_set k v d) = insert k (fst ` set d)"
  by (induction d) auto

lemma distinct_dict_set: "distinct (map fst d) \<Longrightarrow> distinct (map fst (dict_set k v d))"
  by (induction d) (auto simp: keys_dict_set)

lemma map_of_dict_set: "map_of (dict_set k v d) = (map_of d)(k \<mapsto> v)"
  by (induction d) (auto simp: fun_eq_iff)

lemma dict_set_new: "k \<notin> fst ` set d \<Longrightarrow> dict_set k v d = d @ [(k, v)]"
  by (induction d) auto

lemma dict_set_mem: "(k, v) \<in> set (dict_set k v d)"
  by (induction d) auto

subsection \<open>The loop body, case by case\<close>

lemma iso_step_skip: "\<not> kept nmr st i \<Longrightarrow> iso_step symb nmr st i = st"
  by (auto simp: iso_step_def kept_def Let_def)

lemma iso_step_isotopes:
  "kept nmr st i \<Longrightarrow>
   isotopes (iso_step symb nmr st i) = dict_set (isotope i) (new_rec symb nmr i) (isotopes st)"
  by (auto simp: iso_step_def kept_def Let_def new_rec_def spin_of_def split: option.splits)

lemma iso_step_most_iso:
  "kept nmr st i \<Longrightarrow>
   most_iso (iso_step symb nmr st i) =
     (if abundance i > most_iso_ab st then Some (isotope i) else most_iso st) \<and>
   most_iso_ab (iso_step symb nmr st i) = max (most_iso_ab st) (abundance i)"
  by (auto simp: iso_step_def kept_def Let_def)

lemma iso_step_most_NMR_iso:
  "kept nmr st i \<Longrightarrow>
   most_NMR_iso (iso_step symb nmr st i) =
     (if abundance i > most_NMR_iso_ab st \<and> truthy (spin_of nmr i)
      then Some (isotope i) else most_NMR_iso st) \<and>
   most_NMR_iso_ab (iso_step symb nmr st i) =
     (if truthy (spin_of nmr i) then max (most_NMR_iso_ab st) (abundance i)
      else most_NMR_iso_ab st)"
  by (auto simp: iso_step_def kept_def Let_def spin_of_def split: option.splits)

lemma iso_step_most_Q_iso:
  "kept nmr st i \<Longrightarrow>
   most_Q_iso (iso_step symb nmr st i) =
     (if abundance i > most_Q_iso_ab st \<and> truthy (nmr_Q (iso_nmr nmr i))
      then Some (isotope i) else most_Q_iso st) \<and>
   most_Q_iso_ab (iso_step symb nmr st i) =
     (if truthy (nmr_Q (iso_nmr nmr i)) then max (most_Q_iso_ab st) (abundance i)
      else most_Q_iso_ab st)"
  by (auto simp: iso_step_def kept_def Let_def)

lemma scan_isotopes_Nil: "scan_isotopes symb nmr st [] = st"
  by (simp add: scan_isotopes_def)

lemma scan_isotopes_Cons:
  "scan_isotopes symb nmr st (i # xs) = scan_isotopes symb nmr (iso_step symb nmr st i) xs"
  by (simp add: scan_isotopes_def)

lemma scan_isotopes_snoc:
  "scan_isotopes symb nmr st (xs @ [i]) = iso_step symb nmr (scan_isotopes symb nmr st xs) i"
  by (simp add: scan_isotopes_def)

subsection \<open>Invariants of the isotope loop\<close>

lemma recs_origin:
  "(A, r) \<in> set (isotopes (scan_isotopes symb nmr scan_init xs)) \<Longrightarrow>
   \<exists>i\<in>set xs. A = isotope i \<and> r = new_rec symb nmr i \<and> abundance i \<noteq> 0"
proof (induction xs arbitrary: A r rule: rev_induct)
  case Nil
  then show ?case by (simp add: scan_isotopes_Nil scan_init_def)
next
  case (snoc i xs)
  let ?st = "scan_isotopes symb nmr scan_init xs"
  show ?case
  proof (cases "kept nmr ?st i")
    case False
    with snoc show ?thesis by (auto simp: scan_isotopes_snoc iso_step_skip)
  next
    case True
    with snoc.prems have "(A, r) \<in> set (dict_set (isotope i) (new_rec symb nmr i) (isotopes ?st))"
      by (simp add: scan_isotopes_snoc iso_step_isotopes)
    then have "(A, r) = (isotope i, new_rec symb nmr i) \<or> (A, r) \<in> set (isotopes ?st)"
      using set_dict_set by fastforce
    then show ?thesis
    proof
      assume "(A, r) = (isotope i, new_rec symb nmr i)"
      with True show ?thesis by (auto simp: kept_def)
    next
      assume "(A, r) \<in> set (isotopes ?st)"
      from snoc.IH [OF this] show ?thesis by auto
    qed
  qed
qed

lemma keys_distinct: "distinct (map fst (isotopes (scan_isotopes symb nmr scan_init xs)))"
proof (induction xs rule: rev_induct)
  case Nil
  then show ?case by (simp add: scan_isotopes_Nil scan_init_def)
next
  case (snoc i xs)
  then show ?case
    by (cases "kept nmr (scan_isotopes symb nmr scan_init xs) i")
       (simp_all add: scan_isotopes_snoc iso_step_skip iso_step_isotopes distinct_dict_set)
qed

lemma spin_of_not_None: "spin_of nmr i \<noteq> None"
  by (simp add: spin_of_def split: option.splits)

text \<open>The overall maximum.\<close>

lemma most_iso_inv:
  "0 \<le> most_iso_ab (scan_isotopes symb nmr scan_init xs) \<and>
   (most_iso (scan_isotopes symb nmr scan_init xs) = None \<longrightarrow>
      most_iso_ab (scan_isotopes symb nmr scan_init xs) = 0) \<and>
   (most_iso (scan_isotopes symb nmr scan_init xs) \<noteq> None \<longrightarrow>
      0 < most_iso_ab (scan_isotopes symb nmr scan_init xs))"
proof (induction xs rule: rev_induct)
  case Nil
  then show ?case by (simp add: scan_isotopes_Nil scan_init_def)
next
  case (snoc i xs)
  then show ?case
    by (cases "kept nmr (scan_isotopes symb nmr scan_init xs) i")
       (auto simp: scan_isotopes_snoc iso_step_skip iso_step_most_iso)
qed

lemma most_iso_bound:
  "(A, r) \<in> set (isotopes (scan_isotopes symb nmr scan_init xs)) \<Longrightarrow>
   rec_abundance r \<le> most_iso_ab (scan_isotopes symb nmr scan_init xs)"
proof (induction xs arbitrary: A r rule: rev_induct)
  case Nil
  then show ?case by (simp add: scan_isotopes_Nil scan_init_def)
next
  case (snoc i xs)
  let ?st = "scan_isotopes symb nmr scan_init xs"
  show ?case
  proof (cases "kept nmr ?st i")
    case False
    with snoc show ?thesis by (auto simp: scan_isotopes_snoc iso_step_skip)
  next
    case True
    with snoc.prems have "(A, r) \<in> set (dict_set (isotope i) (new_rec symb nmr i) (isotopes ?st))"
      by (simp add: scan_isotopes_snoc iso_step_isotopes)
    then have "(A, r) = (isotope i, new_rec symb nmr i) \<or> (A, r) \<in> set (isotopes ?st)"
      using set_dict_set by fastforce
    then show ?thesis
    proof
      assume "(A, r) = (isotope i, new_rec symb nmr i)"
      with True show ?thesis
        by (simp add: scan_isotopes_snoc iso_step_most_iso new_rec_def)
    next
      assume "(A, r) \<in> set (isotopes ?st)"
      from snoc.IH [OF this] True show ?thesis
        by (simp add: scan_isotopes_snoc iso_step_most_iso)
    qed
  qed
qed

lemma keys_subset:
  "fst ` set (isotopes (scan_isotopes symb nmr scan_init xs)) \<subseteq> isotope ` set xs"
  using recs_origin by fastforce

lemma most_iso_key:
  "most_iso (scan_isotopes symb nmr scan_init xs) = Some A \<Longrightarrow>
   A \<in> fst ` set (isotopes (scan_isotopes symb nmr scan_init xs))"
proof (induction xs rule: rev_induct)
  case Nil
  then show ?case by (simp add: scan_isotopes_Nil scan_init_def)
next
  case (snoc i xs)
  then show ?case
    by (cases "kept nmr (scan_isotopes symb nmr scan_init xs) i")
       (auto simp: scan_isotopes_snoc iso_step_skip iso_step_most_iso iso_step_isotopes
          keys_dict_set split: if_splits)
qed

lemma most_NMR_iso_key:
  "most_NMR_iso (scan_isotopes symb nmr scan_init xs) = Some A \<Longrightarrow>
   A \<in> fst ` set (isotopes (scan_isotopes symb nmr scan_init xs))"
proof (induction xs rule: rev_induct)
  case Nil
  then show ?case by (simp add: scan_isotopes_Nil scan_init_def)
next
  case (snoc i xs)
  then show ?case
    by (cases "kept nmr (scan_isotopes symb nmr scan_init xs) i")
       (auto simp: scan_isotopes_snoc iso_step_skip iso_step_most_NMR_iso iso_step_isotopes
          keys_dict_set split: if_splits)
qed

lemma most_Q_iso_key:
  "most_Q_iso (scan_isotopes symb nmr scan_init xs) = Some A \<Longrightarrow>
   A \<in> fst ` set (isotopes (scan_isotopes symb nmr scan_init xs))"
proof (induction xs rule: rev_induct)
  case Nil
  then show ?case by (simp add: scan_isotopes_Nil scan_init_def)
next
  case (snoc i xs)
  then show ?case
    by (cases "kept nmr (scan_isotopes symb nmr scan_init xs) i")
       (auto simp: scan_isotopes_snoc iso_step_skip iso_step_most_Q_iso iso_step_isotopes
          keys_dict_set split: if_splits)
qed

subsection \<open>The element loop\<close>

lemma element_data_Nil: "element_data [] nmr_data = []"
  by (simp add: element_data_def)

lemma element_data_snoc:
  "element_data (els @ [el]) nmr_data = element_step nmr_data (element_data els nmr_data) el"
  by (simp add: element_data_def)

lemma element_data_origin:
  "(k, d) \<in> set (element_data els nmr_data) \<Longrightarrow>
   \<exists>el\<in>set els. element_record nmr_data el = Some (k, d)"
proof (induction els arbitrary: k d rule: rev_induct)
  case Nil
  then show ?case by (simp add: element_data_Nil)
next
  case (snoc el els)
  show ?case
  proof (cases "element_record nmr_data el")
    case None
    with snoc show ?thesis by (auto simp: element_data_snoc element_step_def)
  next
    case (Some p)
    obtain k' d' where p: "p = (k', d')" by (cases p)
    with Some snoc.prems have "(k, d) \<in> set (dict_set k' d' (element_data els nmr_data))"
      by (simp add: element_data_snoc element_step_def)
    then have "(k, d) = (k', d') \<or> (k, d) \<in> set (element_data els nmr_data)"
      using set_dict_set by fastforce
    then show ?thesis
    proof
      assume "(k, d) = (k', d')"
      with Some p show ?thesis by auto
    next
      assume "(k, d) \<in> set (element_data els nmr_data)"
      from snoc.IH [OF this] show ?thesis by auto
    qed
  qed
qed

lemma element_data_keys:
  "fst ` set (element_data els nmr_data) =
   {k. \<exists>el\<in>set els. \<exists>d. element_record nmr_data el = Some (k, d)}"
proof (induction els rule: rev_induct)
  case Nil
  then show ?case by (simp add: element_data_Nil)
next
  case (snoc el els)
  show ?case
  proof (cases "element_record nmr_data el")
    case None
    with snoc show ?thesis by (auto simp: element_data_snoc element_step_def)
  next
    case (Some p)
    obtain k' d' where p: "p = (k', d')" by (cases p)
    with Some snoc show ?thesis
      by (auto simp: element_data_snoc element_step_def keys_dict_set)
  qed
qed

lemma element_data_distinct: "distinct (map fst (element_data els nmr_data))"
proof (induction els rule: rev_induct)
  case Nil
  then show ?case by (simp add: element_data_Nil)
next
  case (snoc el els)
  then show ?case
    by (cases "element_record nmr_data el")
       (auto simp: element_data_snoc element_step_def distinct_dict_set)
qed

lemma element_record_SomeD:
  "element_record nmr_data el = Some (k, d) \<Longrightarrow>
   k = out_symbol (symbol el) \<and> d_symbol d = k \<and> d_Z d = number el \<and>
   d_isotopes d = isotopes (element_scan nmr_data el) \<and>
   most_iso (element_scan nmr_data el) \<noteq> None \<and>
   maxiso d = label (most_iso (element_scan nmr_data el)) \<and>
   maxiso_NMR d = label (most_NMR_iso (element_scan nmr_data el)) \<and>
   maxiso_Q d = label (most_Q_iso (element_scan nmr_data el))"
  by (auto simp: element_record_def Let_def split: if_splits)

lemma element_scan_eq:
  "element_scan nmr_data el =
   scan_isotopes (out_symbol (symbol el)) (nmr_for nmr_data (out_symbol (symbol el)))
     scan_init (isos el)"
  by (simp add: element_scan_def Let_def)

lemma scan_drop_zero:
  "scan_isotopes symb nmr st (filter (\<lambda>i. abundance i \<noteq> 0) xs) = scan_isotopes symb nmr st xs"
proof (induction xs arbitrary: st)
  case Nil
  show ?case by simp
next
  case (Cons i xs)
  show ?case
  proof (cases "abundance i = 0")
    case True
    then have "iso_step symb nmr st i = st" by (simp add: iso_step_skip kept_def)
    with True Cons show ?thesis by (simp add: scan_isotopes_Cons)
  next
    case False
    with Cons show ?thesis by (simp add: scan_isotopes_Cons)
  qed
qed

lemma element_record_drop_zero: "element_record nmr_data (drop_zero el) = element_record nmr_data el"
  by (simp add: element_record_def element_scan_eq drop_zero_def scan_drop_zero Let_def)

lemma element_data_drop_zero:
  "element_data (map drop_zero els) nmr_data = element_data els nmr_data"
  by (induction els rule: rev_induct)
     (simp_all add: element_data_Nil element_data_snoc element_step_def element_record_drop_zero)

lemma output_recs:
  assumes "(k, d) \<in> set (element_data els nmr_data)" and "(A, r) \<in> set (d_isotopes d)"
  shows "\<exists>el\<in>set els. \<exists>i\<in>set (isos el). k = out_symbol (symbol el) \<and> A = isotope i \<and>
           r = new_rec k (nmr_for nmr_data k) i \<and> abundance i \<noteq> 0"
proof -
  from element_data_origin [OF assms(1)] obtain el
    where el: "el \<in> set els" "element_record nmr_data el = Some (k, d)" by blast
  from element_record_SomeD [OF el(2)] assms(2)
  have k: "k = out_symbol (symbol el)"
    and "(A, r) \<in> set (isotopes (scan_isotopes k (nmr_for nmr_data k) scan_init (isos el)))"
    by (simp_all add: element_scan_eq)
  from recs_origin [OF this(2)] el(1) k show ?thesis by blast
qed

subsection \<open>The sample tables, evaluated\<close>

lemmas eval_defs =
  element_data_def element_step_def element_record_def
  element_scan_def nmr_for_def scan_isotopes_def iso_step_def out_symbol_def scan_init_def
  iso_nmr_def str_int_def str_nat.simps digit_char_def truthy_def truthy_int_def label_def
  Let_def no_entry_def Mu_mass_def

lemmas sample_defs =
  sample_elements_def sample_nmr_def sample_Mu_def sample_H_def sample_Cl_def
  sample_Mu_1_def sample_H_1_def sample_H_2_def sample_Cl_35_def
  tritium_def chlorine_35_def chlorine_37_def
  scenario_a_def scenario_b_def scenario_element_def scenario_nmr_def
  tie_element_def tie_nmr_def tie_Br_def

lemma sample_output:
  "element_data sample_elements sample_nmr =
     [(''Mu'', sample_Mu), (''H'', sample_H), (''Cl'', sample_Cl)]"
  by (simp add: sample_defs eval_defs)

subsection \<open>Pointers follow the first of the best\<close>

lemma follows_keep:
  assumes "follows q ptr v xs" and "\<forall>j < length xs. q' j = q j"
    and "q' (length xs) \<longrightarrow> abundance i \<le> v"
  shows "follows q' ptr v (xs @ [i])"
proof -
  have bound: "\<forall>j < length (xs @ [i]). q' j \<longrightarrow> abundance ((xs @ [i]) ! j) \<le> v"
    using assms by (auto simp: follows_def nth_append less_Suc_eq)
  show ?thesis
  proof (cases ptr)
    case None
    with assms(1) bound show ?thesis by (simp add: follows_def)
  next
    case (Some A)
    with assms(1) obtain k where k: "k < length xs" "q k" "isotope (xs ! k) = A"
      "abundance (xs ! k) = v" "\<forall>j < k. q j \<longrightarrow> abundance (xs ! j) < v" and v: "0 < v"
      by (auto simp: follows_def)
    have "k < length (xs @ [i]) \<and> q' k \<and> isotope ((xs @ [i]) ! k) = A \<and>
          abundance ((xs @ [i]) ! k) = v \<and>
          (\<forall>j < k. q' j \<longrightarrow> abundance ((xs @ [i]) ! j) < v)"
      using k assms(2) by (auto simp: nth_append)
    with Some v bound show ?thesis unfolding follows_def by (simp only: option.case) blast
  qed
qed

lemma follows_new:
  assumes "follows q ptr v xs" and "\<forall>j < length xs. q' j = q j"
    and "q' (length xs)" and "v < abundance i"
  shows "follows q' (Some (isotope i)) (abundance i) (xs @ [i])"
proof -
  have old: "\<forall>j < length xs. q j \<longrightarrow> abundance (xs ! j) \<le> v" and v: "0 \<le> v"
    using assms(1) by (auto simp: follows_def split: option.splits)
  have bound: "\<forall>j < length (xs @ [i]). q' j \<longrightarrow> abundance ((xs @ [i]) ! j) \<le> abundance i"
    using old assms(2,4) by (fastforce simp: nth_append less_Suc_eq)
  have "length xs < length (xs @ [i]) \<and> q' (length xs) \<and>
        isotope ((xs @ [i]) ! length xs) = isotope i \<and>
        abundance ((xs @ [i]) ! length xs) = abundance i \<and>
        (\<forall>j < length xs. q' j \<longrightarrow> abundance ((xs @ [i]) ! j) < abundance i)"
    using old assms(2,3,4) by (fastforce simp: nth_append)
  with bound v assms(4) show ?thesis unfolding follows_def by (simp only: option.case) force
qed

lemma follows_first_best:
  assumes "follows q (Some A) v xs"
  shows "\<exists>k. first_best q xs k \<and> isotope (xs ! k) = A \<and> abundance (xs ! k) = v"
proof -
  from assms obtain k where k: "k < length xs" "q k" "isotope (xs ! k) = A"
      "abundance (xs ! k) = v" "\<forall>j < k. q j \<longrightarrow> abundance (xs ! j) < v"
    and bound: "\<forall>j < length xs. q j \<longrightarrow> abundance (xs ! j) \<le> v"
    by (auto simp: follows_def)
  then have "first_best q xs k" by (fastforce simp: first_best_def)
  with k show ?thesis by blast
qed

lemma kept_at_prefix: "j < length xs \<Longrightarrow> kept_at symb nmr (xs @ [i]) j = kept_at symb nmr xs j"
  by (simp add: kept_at_def nth_append)

lemma kept_at_last: "kept_at symb nmr (xs @ [i]) (length xs) = kept nmr (scan_isotopes symb nmr scan_init xs) i"
  by (simp add: kept_at_def)

lemma follows_most_iso:
  "follows (kept_at symb nmr xs)
     (most_iso (scan_isotopes symb nmr scan_init xs))
     (most_iso_ab (scan_isotopes symb nmr scan_init xs)) xs"
proof (induction xs rule: rev_induct)
  case Nil
  show ?case by (simp add: follows_def scan_isotopes_Nil scan_init_def)
next
  case (snoc i xs)
  let ?st = "scan_isotopes symb nmr scan_init xs"
  have pre: "\<forall>j < length xs. kept_at symb nmr (xs @ [i]) j = kept_at symb nmr xs j"
    by (simp add: kept_at_prefix)
  show ?case
  proof (cases "kept nmr ?st i")
    case False
    then have "kept_at symb nmr (xs @ [i]) (length xs) \<longrightarrow> abundance i \<le> most_iso_ab ?st"
      by (simp add: kept_at_last)
    from follows_keep [OF snoc.IH pre this] False show ?thesis
      by (simp add: scan_isotopes_snoc iso_step_skip)
  next
    case True
    show ?thesis
    proof (cases "most_iso_ab ?st < abundance i")
      case gt: True
      from follows_new [OF snoc.IH pre _ gt] True gt show ?thesis
        by (simp add: scan_isotopes_snoc iso_step_most_iso kept_at_last)
    next
      case le: False
      then have "kept_at symb nmr (xs @ [i]) (length xs) \<longrightarrow> abundance i \<le> most_iso_ab ?st"
        by simp
      from follows_keep [OF snoc.IH pre this] True le show ?thesis
        by (simp add: scan_isotopes_snoc iso_step_most_iso max_def)
    qed
  qed
qed

lemma follows_most_NMR_iso:
  "follows (\<lambda>j. kept_at symb nmr xs j \<and> truthy (spin_of nmr (xs ! j)))
     (most_NMR_iso (scan_isotopes symb nmr scan_init xs))
     (most_NMR_iso_ab (scan_isotopes symb nmr scan_init xs)) xs"
proof (induction xs rule: rev_induct)
  case Nil
  show ?case by (simp add: follows_def scan_isotopes_Nil scan_init_def)
next
  case (snoc i xs)
  let ?st = "scan_isotopes symb nmr scan_init xs"
  let ?q = "\<lambda>ys j. kept_at symb nmr ys j \<and> truthy (spin_of nmr (ys ! j))"
  have pre: "\<forall>j < length xs. ?q (xs @ [i]) j = ?q xs j"
    by (simp add: kept_at_prefix nth_append)
  have last: "?q (xs @ [i]) (length xs) = (kept nmr ?st i \<and> truthy (spin_of nmr i))"
    by (simp add: kept_at_last)
  show ?case
  proof (cases "kept nmr ?st i")
    case False
    then have "?q (xs @ [i]) (length xs) \<longrightarrow> abundance i \<le> most_NMR_iso_ab ?st"
      by (simp add: kept_at_last)
    from follows_keep [OF snoc.IH pre this] False show ?thesis
      by (simp add: scan_isotopes_snoc iso_step_skip)
  next
    case True
    show ?thesis
    proof (cases "most_NMR_iso_ab ?st < abundance i \<and> truthy (spin_of nmr i)")
      case gt: True
      then have q: "?q (xs @ [i]) (length xs)" and g: "most_NMR_iso_ab ?st < abundance i"
        using True last by simp_all
      from follows_new [OF snoc.IH pre q g] True gt show ?thesis
        by (simp add: scan_isotopes_snoc iso_step_most_NMR_iso)
    next
      case le: False
      then have "?q (xs @ [i]) (length xs) \<longrightarrow> abundance i \<le> most_NMR_iso_ab ?st"
        using last by auto
      from follows_keep [OF snoc.IH pre this] True le show ?thesis
        by (auto simp add: scan_isotopes_snoc iso_step_most_NMR_iso max_def)
    qed
  qed
qed

lemma follows_most_Q_iso:
  "follows (\<lambda>j. kept_at symb nmr xs j \<and> truthy (nmr_Q (iso_nmr nmr (xs ! j))))
     (most_Q_iso (scan_isotopes symb nmr scan_init xs))
     (most_Q_iso_ab (scan_isotopes symb nmr scan_init xs)) xs"
proof (induction xs rule: rev_induct)
  case Nil
  show ?case by (simp add: follows_def scan_isotopes_Nil scan_init_def)
next
  case (snoc i xs)
  let ?st = "scan_isotopes symb nmr scan_init xs"
  let ?q = "\<lambda>ys j. kept_at symb nmr ys j \<and> truthy (nmr_Q (iso_nmr nmr (ys ! j)))"
  have pre: "\<forall>j < length xs. ?q (xs @ [i]) j = ?q xs j"
    by (simp add: kept_at_prefix nth_append)
  have last: "?q (xs @ [i]) (length xs) = (kept nmr ?st i \<and> truthy (nmr_Q (iso_nmr nmr i)))"
    by (simp add: kept_at_last)
  show ?case
  proof (cases "kept nmr ?st i")
    case False
    then have "?q (xs @ [i]) (length xs) \<longrightarrow> abundance i \<le> most_Q_iso_ab ?st"
      by (simp add: kept_at_last)
    from follows_keep [OF snoc.IH pre this] False show ?thesis
      by (simp add: scan_isotopes_snoc iso_step_skip)
  next
    case True
    show ?thesis
    proof (cases "most_Q_iso_ab ?st < abundance i \<and> truthy (nmr_Q (iso_nmr nmr i))")
      case gt: True
      then have q: "?q (xs @ [i]) (length xs)" and g: "most_Q_iso_ab ?st < abundance i"
        using True last by simp_all
      from follows_new [OF snoc.IH pre q g] True gt show ?thesis
        by (simp add: scan_isotopes_snoc iso_step_most_Q_iso)
    next
      case le: False
      then have "?q (xs @ [i]) (length xs) \<longrightarrow> abundance i \<le> most_Q_iso_ab ?st"
        using last by auto
      from follows_keep [OF snoc.IH pre this] True le show ?thesis
        by (auto simp add: scan_isotopes_snoc iso_step_most_Q_iso max_def)
    qed
  qed
qed

subsection \<open>Records and positions\<close>

lemma recs_kept_at:
  "(A, r) \<in> set (isotopes (scan_isotopes symb nmr scan_init xs)) \<Longrightarrow>
   \<exists>j < length xs. kept_at symb nmr xs j \<and> A = isotope (xs ! j) \<and> r = new_rec symb nmr (xs ! j)"
proof (induction xs arbitrary: A r rule: rev_induct)
  case Nil
  then show ?case by (simp add: scan_isotopes_Nil scan_init_def)
next
  case (snoc i xs)
  let ?st = "scan_isotopes symb nmr scan_init xs"
  have old: "\<exists>j < length (xs @ [i]). kept_at symb nmr (xs @ [i]) j \<and>
      A = isotope ((xs @ [i]) ! j) \<and> r = new_rec symb nmr ((xs @ [i]) ! j)"
    if "(A, r) \<in> set (isotopes ?st)"
  proof -
    from snoc.IH [OF that] obtain j where "j < length xs" "kept_at symb nmr xs j"
      "A = isotope (xs ! j)" "r = new_rec symb nmr (xs ! j)" by blast
    then have "j < length (xs @ [i]) \<and> kept_at symb nmr (xs @ [i]) j \<and>
      A = isotope ((xs @ [i]) ! j) \<and> r = new_rec symb nmr ((xs @ [i]) ! j)"
      by (simp add: kept_at_prefix nth_append)
    then show ?thesis by blast
  qed
  show ?case
  proof (cases "kept nmr ?st i")
    case False
    with snoc.prems old show ?thesis by (simp add: scan_isotopes_snoc iso_step_skip)
  next
    case True
    with snoc.prems have "(A, r) \<in> set (dict_set (isotope i) (new_rec symb nmr i) (isotopes ?st))"
      by (simp add: scan_isotopes_snoc iso_step_isotopes)
    then have "(A, r) = (isotope i, new_rec symb nmr i) \<or> (A, r) \<in> set (isotopes ?st)"
      using set_dict_set by fastforce
    then show ?thesis
    proof
      assume "(A, r) = (isotope i, new_rec symb nmr i)"
      with True have "length xs < length (xs @ [i]) \<and> kept_at symb nmr (xs @ [i]) (length xs) \<and>
        A = isotope ((xs @ [i]) ! length xs) \<and> r = new_rec symb nmr ((xs @ [i]) ! length xs)"
        by (simp add: kept_at_last)
      then show ?thesis by blast
    next
      assume "(A, r) \<in> set (isotopes ?st)"
      then show ?thesis by (rule old)
    qed
  qed
qed

lemma kept_at_recorded:
  "distinct (map isotope xs) \<Longrightarrow> j < length xs \<Longrightarrow> kept_at symb nmr xs j \<Longrightarrow>
   map_of (isotopes (scan_isotopes symb nmr scan_init xs)) (isotope (xs ! j)) =
     Some (new_rec symb nmr (xs ! j))"
proof (induction xs arbitrary: j rule: rev_induct)
  case Nil
  then show ?case by simp
next
  case (snoc i xs)
  let ?st = "scan_isotopes symb nmr scan_init xs"
  from snoc.prems(1) have d: "distinct (map isotope xs)" and new: "isotope i \<notin> isotope ` set xs"
    by simp_all
  show ?case
  proof (cases "j < length xs")
    case True
    with snoc.prems(3) have "kept_at symb nmr xs j" by (simp add: kept_at_prefix)
    from snoc.IH [OF d True this]
    have IH: "map_of (isotopes ?st) (isotope (xs ! j)) = Some (new_rec symb nmr (xs ! j))" .
    from True new have ne: "isotope (xs ! j) \<noteq> isotope i" by (metis imageI nth_mem)
    show ?thesis
    proof (cases "kept nmr ?st i")
      case False
      with IH True show ?thesis by (simp add: scan_isotopes_snoc iso_step_skip nth_append)
    next
      case k: True
      with IH True ne show ?thesis
        by (simp add: scan_isotopes_snoc iso_step_isotopes map_of_dict_set nth_append)
    qed
  next
    case False
    with snoc.prems(2) have j: "j = length xs" by simp
    with snoc.prems(3) have "kept nmr ?st i" by (simp add: kept_at_last)
    with j show ?thesis
      by (simp add: scan_isotopes_snoc iso_step_isotopes map_of_dict_set)
  qed
qed

lemma label_SomeD: "label p = Some s \<Longrightarrow> \<exists>A. p = Some A \<and> A \<noteq> 0 \<and> s = str_int A"
  by (cases p) (auto simp: label_def truthy_int_def split: if_splits)

subsection \<open>The pointers of an element\<close>

lemma element_follows:
  "follows (retained_at nmr_data el)
     (most_iso (element_scan nmr_data el)) (most_iso_ab (element_scan nmr_data el)) (isos el)"
  "follows (\<lambda>j. retained_at nmr_data el j \<and> truthy (spin_at nmr_data el j))
     (most_NMR_iso (element_scan nmr_data el)) (most_NMR_iso_ab (element_scan nmr_data el)) (isos el)"
  "follows (\<lambda>j. retained_at nmr_data el j \<and> truthy (Q_at nmr_data el j))
     (most_Q_iso (element_scan nmr_data el)) (most_Q_iso_ab (element_scan nmr_data el)) (isos el)"
  unfolding retained_at_def spin_at_def Q_at_def el_nmr_def element_scan_eq
  by (rule follows_most_iso follows_most_NMR_iso follows_most_Q_iso)+

lemma element_recs:
  "(A, r) \<in> set (isotopes (element_scan nmr_data el)) \<Longrightarrow>
   \<exists>j < length (isos el). retained_at nmr_data el j \<and> A = isotope (isos el ! j) \<and>
      r = new_rec (out_symbol (symbol el)) (el_nmr nmr_data el) (isos el ! j)"
  unfolding retained_at_def el_nmr_def element_scan_eq by (rule recs_kept_at)

lemma element_recorded:
  "distinct (map isotope (isos el)) \<Longrightarrow> j < length (isos el) \<Longrightarrow> retained_at nmr_data el j \<Longrightarrow>
   map_of (isotopes (element_scan nmr_data el)) (isotope (isos el ! j)) =
     Some (new_rec (out_symbol (symbol el)) (el_nmr nmr_data el) (isos el ! j))"
  unfolding retained_at_def el_nmr_def element_scan_eq by (rule kept_at_recorded)

lemma follows_bound: "follows q ptr v xs \<Longrightarrow> j < length xs \<Longrightarrow> q j \<Longrightarrow> abundance (xs ! j) \<le> v"
  by (simp add: follows_def)

subsection \<open>The record that a pointer names\<close>

lemma pointer_key:
  assumes "element_record nmr_data el = Some (key, d)"
  shows "(\<forall>s. maxiso d = Some s \<longrightarrow> (\<exists>A \<in> fst ` set (d_isotopes d). s = str_int A)) \<and>
         (\<forall>s. maxiso_NMR d = Some s \<longrightarrow> (\<exists>A \<in> fst ` set (d_isotopes d). s = str_int A)) \<and>
         (\<forall>s. maxiso_Q d = Some s \<longrightarrow> (\<exists>A \<in> fst ` set (d_isotopes d). s = str_int A))"
proof -
  let ?st = "element_scan nmr_data el"
  from element_record_SomeD [OF assms]
  have m: "maxiso d = label (most_iso ?st)" "maxiso_NMR d = label (most_NMR_iso ?st)"
    "maxiso_Q d = label (most_Q_iso ?st)" and i: "d_isotopes d = isotopes ?st" by simp_all
  have 1: "\<exists>A \<in> fst ` set (d_isotopes d). s = str_int A" if "maxiso d = Some s" for s
  proof -
    from that m(1) label_SomeD obtain A where A: "most_iso ?st = Some A" "s = str_int A"
      by metis
    from most_iso_key [OF A(1) [unfolded element_scan_eq]] A(2) i show ?thesis
      by (auto simp: element_scan_eq)
  qed
  have 2: "\<exists>A \<in> fst ` set (d_isotopes d). s = str_int A" if "maxiso_NMR d = Some s" for s
  proof -
    from that m(2) label_SomeD obtain A where A: "most_NMR_iso ?st = Some A" "s = str_int A"
      by metis
    from most_NMR_iso_key [OF A(1) [unfolded element_scan_eq]] A(2) i show ?thesis
      by (auto simp: element_scan_eq)
  qed
  have 3: "\<exists>A \<in> fst ` set (d_isotopes d). s = str_int A" if "maxiso_Q d = Some s" for s
  proof -
    from that m(3) label_SomeD obtain A where A: "most_Q_iso ?st = Some A" "s = str_int A"
      by metis
    from most_Q_iso_key [OF A(1) [unfolded element_scan_eq]] A(2) i show ?thesis
      by (auto simp: element_scan_eq)
  qed
  from 1 2 3 show ?thesis by blast
qed

lemma maxiso_record:
  assumes "element_record nmr_data el = Some (key, d)" and "distinct (map isotope (isos el))"
    and "maxiso d = Some s"
  shows "\<exists>A r. s = str_int A \<and> map_of (d_isotopes d) A = Some r \<and>
           (\<forall>(B, r') \<in> set (d_isotopes d). rec_abundance r' \<le> rec_abundance r)"
proof -
  let ?st = "element_scan nmr_data el"
  from element_record_SomeD [OF assms(1)]
  have m: "maxiso d = label (most_iso ?st)" and i: "d_isotopes d = isotopes ?st" by simp_all
  from assms(3) m label_SomeD obtain A where A: "most_iso ?st = Some A" "s = str_int A"
    by metis
  have f: "follows (retained_at nmr_data el) (Some A) (most_iso_ab ?st) (isos el)"
    using element_follows(1) [of nmr_data el] A(1) by simp
  from follows_first_best [OF f] obtain k
    where k: "first_best (retained_at nmr_data el) (isos el) k" "isotope (isos el ! k) = A"
      "abundance (isos el ! k) = most_iso_ab ?st" by blast
  let ?r = "new_rec (out_symbol (symbol el)) (el_nmr nmr_data el) (isos el ! k)"
  from k(1) have "k < length (isos el)" "retained_at nmr_data el k"
    by (simp_all add: first_best_def)
  from element_recorded [OF assms(2) this] k(2) i
  have r: "map_of (d_isotopes d) A = Some ?r" by simp
  have v: "rec_abundance ?r = most_iso_ab ?st" using k(3) by (simp add: new_rec_def)
  have "rec_abundance r' \<le> rec_abundance ?r" if "(B, r') \<in> set (d_isotopes d)" for B r'
  proof -
    from that i element_recs obtain j where j: "j < length (isos el)" "retained_at nmr_data el j"
      "r' = new_rec (out_symbol (symbol el)) (el_nmr nmr_data el) (isos el ! j)"
      by metis
    from follows_bound [OF f j(1,2)] j(3) v show ?thesis by (simp add: new_rec_def)
  qed
  with r A(2) show ?thesis by blast
qed

lemma maxiso_NMR_record:
  assumes "element_record nmr_data el = Some (key, d)" and "distinct (map isotope (isos el))"
    and "maxiso_NMR d = Some s"
  shows "\<exists>A r. s = str_int A \<and> map_of (d_isotopes d) A = Some r \<and> truthy (rec_spin r) \<and>
           (\<forall>(B, r') \<in> set (d_isotopes d). truthy (rec_spin r') \<longrightarrow>
              rec_abundance r' \<le> rec_abundance r)"
proof -
  let ?st = "element_scan nmr_data el"
  let ?q = "\<lambda>j. retained_at nmr_data el j \<and> truthy (spin_at nmr_data el j)"
  from element_record_SomeD [OF assms(1)]
  have m: "maxiso_NMR d = label (most_NMR_iso ?st)" and i: "d_isotopes d = isotopes ?st"
    by simp_all
  from assms(3) m label_SomeD obtain A where A: "most_NMR_iso ?st = Some A" "s = str_int A"
    by metis
  have f: "follows ?q (Some A) (most_NMR_iso_ab ?st) (isos el)"
    using element_follows(2) [of nmr_data el] A(1) by simp
  from follows_first_best [OF f] obtain k
    where k: "first_best ?q (isos el) k" "isotope (isos el ! k) = A"
      "abundance (isos el ! k) = most_NMR_iso_ab ?st" by blast
  let ?r = "new_rec (out_symbol (symbol el)) (el_nmr nmr_data el) (isos el ! k)"
  from k(1) have kk: "k < length (isos el)" "retained_at nmr_data el k"
    and t: "truthy (spin_at nmr_data el k)"
    by (simp_all add: first_best_def)
  from element_recorded [OF assms(2) kk] k(2) i
  have r: "map_of (d_isotopes d) A = Some ?r" by simp
  have v: "rec_abundance ?r = most_NMR_iso_ab ?st" using k(3) by (simp add: new_rec_def)
  have ts: "truthy (rec_spin ?r)" using t by (simp add: new_rec_def spin_at_def)
  have "rec_abundance r' \<le> rec_abundance ?r"
    if "(B, r') \<in> set (d_isotopes d)" "truthy (rec_spin r')" for B r'
  proof -
    from that(1) i element_recs obtain j where j: "j < length (isos el)" "retained_at nmr_data el j"
      "r' = new_rec (out_symbol (symbol el)) (el_nmr nmr_data el) (isos el ! j)"
      by metis
    with that(2) have "?q j" by (simp add: new_rec_def spin_at_def)
    from follows_bound [OF f j(1) this] j(3) v show ?thesis by (simp add: new_rec_def)
  qed
  with r ts A(2) show ?thesis by blast
qed

subsection \<open>Elements without a most abundant isotope\<close>

lemma scan_all_zero:
  "\<forall>i \<in> set xs. abundance i = 0 \<Longrightarrow> scan_isotopes symb nmr st xs = st"
proof -
  assume "\<forall>i \<in> set xs. abundance i = 0"
  then have "filter (\<lambda>i. abundance i \<noteq> 0) xs = []" by (simp add: filter_empty_conv)
  with scan_drop_zero [of symb nmr st xs] show ?thesis by (simp add: scan_isotopes_Nil)
qed

lemma most_iso_None_zero:
  assumes "\<forall>i \<in> set xs. 0 \<le> abundance i"
    and "most_iso (scan_isotopes symb nmr scan_init xs) = None"
  shows "\<forall>i \<in> set xs. abundance i = 0"
  using assms
proof (induction xs rule: rev_induct)
  case Nil
  show ?case by simp
next
  case (snoc i xs)
  let ?st = "scan_isotopes symb nmr scan_init xs"
  from snoc.prems(1) have nn: "\<forall>i \<in> set xs. 0 \<le> abundance i" and i: "0 \<le> abundance i"
    by simp_all
  have none: "most_iso ?st = None"
  proof (cases "kept nmr ?st i")
    case False
    with snoc.prems(2) show ?thesis by (simp add: scan_isotopes_snoc iso_step_skip)
  next
    case True
    with snoc.prems(2) show ?thesis
      by (simp add: scan_isotopes_snoc iso_step_most_iso split: if_splits)
  qed
  from snoc.IH [OF nn none] have z: "\<forall>i \<in> set xs. abundance i = 0" .
  then have st: "?st = scan_init" by (rule scan_all_zero)
  have "abundance i = 0"
  proof (rule ccontr)
    assume "abundance i \<noteq> 0"
    with i have pos: "0 < abundance i" by simp
    then have k: "kept nmr scan_init i" by (simp add: kept_def scan_init_def)
    from snoc.prems(2) have "most_iso (iso_step symb nmr scan_init i) = None"
      by (simp only: scan_isotopes_snoc st)
    with iso_step_most_iso [OF k, of symb] pos show False
      by (simp add: scan_init_def)
  qed
  with z show ?case by simp
qed

lemma most_iso_None_iff:
  assumes "\<forall>i \<in> set xs. 0 \<le> abundance i"
  shows "most_iso (scan_isotopes symb nmr scan_init xs) = None \<longleftrightarrow> (\<forall>i \<in> set xs. abundance i = 0)"
proof
  assume "most_iso (scan_isotopes symb nmr scan_init xs) = None"
  with assms show "\<forall>i \<in> set xs. abundance i = 0" by (rule most_iso_None_zero)
next
  assume "\<forall>i \<in> set xs. abundance i = 0"
  then show "most_iso (scan_isotopes symb nmr scan_init xs) = None"
    by (simp add: scan_all_zero scan_init_def)
qed

lemma element_record_key:
  "element_record nmr_data el = Some (k, d) \<Longrightarrow> k = out_symbol (symbol el)"
  by (simp add: element_record_SomeD)

lemma element_record_None_iff:
  "element_record nmr_data el = None \<longleftrightarrow> most_iso (element_scan nmr_data el) = None"
  by (simp add: element_record_def Let_def)

subsection \<open>Decimal numerals\<close>

lemma below_ten: "(k::nat) < 10 \<Longrightarrow> k \<in> {0, 1, 2, 3, 4, 5, 6, 7, 8, 9}"
  by auto

lemma digit_char_inj: "a < 10 \<Longrightarrow> b < 10 \<Longrightarrow> digit_char a = digit_char b \<Longrightarrow> a = b"
proof -
  assume "a < 10" "b < 10" "digit_char a = digit_char b"
  with below_ten [of a] below_ten [of b] show "a = b" by (auto simp: digit_char_def)
qed

lemma digit_char_not_minus: "digit_char a \<noteq> CHR ''-''"
proof -
  have "a mod 10 < 10" by simp
  then have "a mod 10 \<in> {0, 1, 2, 3, 4, 5, 6, 7, 8, 9}" by (rule below_ten)
  then show ?thesis unfolding digit_char_def by auto
qed

lemma str_nat_not_Nil: "str_nat n \<noteq> []"
  by (subst str_nat.simps) simp

lemma str_nat_hd: "hd (str_nat n) \<noteq> CHR ''-''"
proof (induction n rule: str_nat.induct)
  case (1 n)
  show ?case
  proof (cases "n < 10")
    case True
    then show ?thesis by (subst str_nat.simps) (simp add: digit_char_not_minus)
  next
    case False
    with 1 str_nat_not_Nil [of "n div 10"] show ?thesis
      by (subst str_nat.simps) simp
  qed
qed

lemma str_nat_inj: "str_nat n = str_nat m \<Longrightarrow> n = m"
proof (induction n arbitrary: m rule: str_nat.induct)
  case (1 n)
  show ?case
  proof (cases "n < 10")
    case n: True
    show ?thesis
    proof (cases "m < 10")
      case True
      with n "1.prems" have "digit_char n = digit_char m"
        by (simp add: str_nat.simps [of n] str_nat.simps [of m])
      with n True show ?thesis by (rule digit_char_inj)
    next
      case False
      with n "1.prems" str_nat_not_Nil [of "m div 10"] show ?thesis
        by (simp add: str_nat.simps [of n] str_nat.simps [of m])
    qed
  next
    case n: False
    show ?thesis
    proof (cases "m < 10")
      case True
      with n "1.prems" str_nat_not_Nil [of "n div 10"] show ?thesis
        by (simp add: str_nat.simps [of n] str_nat.simps [of m])
    next
      case False
      with n "1.prems" have e: "str_nat (n div 10) = str_nat (m div 10)"
        "digit_char (n mod 10) = digit_char (m mod 10)"
        by (simp_all add: str_nat.simps [of n] str_nat.simps [of m])
      from "1.IH" [OF n e(1)] have d: "n div 10 = m div 10" .
      from e(2) have "n mod 10 = m mod 10" by (intro digit_char_inj) simp_all
      with d show ?thesis by (metis div_mult_mod_eq)
    qed
  qed
qed

lemma str_int_inj: "str_int i = str_int j \<Longrightarrow> i = j"
proof -
  assume a: "str_int i = str_int j"
  show ?thesis
  proof (cases "i < 0")
    case i: True
    show ?thesis
    proof (cases "j < 0")
      case True
      with i a have "nat (- i) = nat (- j)" by (simp add: str_int_def str_nat_inj)
      with i True show ?thesis by simp
    next
      case False
      with i a have "CHR ''-'' # str_nat (nat (- i)) = str_nat (nat j)" by (simp add: str_int_def)
      then have "hd (str_nat (nat j)) = CHR ''-''" by (metis list.sel(1))
      with str_nat_hd show ?thesis by blast
    qed
  next
    case i: False
    show ?thesis
    proof (cases "j < 0")
      case True
      with i a have "str_nat (nat i) = CHR ''-'' # str_nat (nat (- j))" by (simp add: str_int_def)
      then have "hd (str_nat (nat i)) = CHR ''-''" by simp
      with str_nat_hd show ?thesis by blast
    next
      case False
      with i a have "nat i = nat j" by (simp add: str_int_def str_nat_inj)
      with i False show ?thesis by simp
    qed
  qed
qed

lemma inj_str_int: "inj str_int"
  by (rule injI) (rule str_int_inj)

subsection \<open>Writing and reading JSON\<close>

lemma foldl_dict_set_new:
  "distinct (map fst (d @ ps)) \<Longrightarrow>
   foldl (\<lambda>d p. dict_set (fst p) (snd p) d) d ps = d @ ps"
proof (induction ps arbitrary: d)
  case Nil
  show ?case by simp
next
  case (Cons p ps)
  from Cons.prems have "fst p \<notin> fst ` set d" by auto
  then have "dict_set (fst p) (snd p) d = d @ [p]" by (simp add: dict_set_new)
  with Cons.IH [of "d @ [p]"] Cons.prems show ?case by simp
qed

lemma dict_of_pairs_distinct: "distinct (map fst ps) \<Longrightarrow> dict_of_pairs ps = ps"
  using foldl_dict_set_new [of "[]" ps] by (simp add: dict_of_pairs_def)

lemma loads_dumps: "key_texts_distinct v \<Longrightarrow> json_loads (json_dumps v) = str_keys v"
proof (induction v)
  case (PDict kvs)
  from PDict.prems have d: "distinct (map (\<lambda>p. key_text (fst p)) kvs)"
    and sub: "\<forall>p \<in> set kvs. key_texts_distinct (snd p)"
    by (simp_all add: list_all_iff)
  have "map fst (map (map_prod KStr json_loads) (map (map_prod key_text json_dumps) kvs)) =
        map KStr (map (\<lambda>p. key_text (fst p)) kvs)"
    by simp
  moreover have "distinct (map KStr (map (\<lambda>p. key_text (fst p)) kvs))"
    using d by (simp add: distinct_map inj_on_def)
  ultimately have "dict_of_pairs (map (map_prod KStr json_loads) (map (map_prod key_text json_dumps) kvs)) =
        map (map_prod KStr json_loads) (map (map_prod key_text json_dumps) kvs)"
    by (simp only: dict_of_pairs_distinct)
  moreover have "map (map_prod KStr json_loads) (map (map_prod key_text json_dumps) kvs) =
        map (map_prod (\<lambda>k. KStr (key_text k)) str_keys) kvs"
  proof (simp, intro ballI)
    fix p assume p: "p \<in> set kvs"
    obtain k w where kw: "p = (k, w)" by (cases p)
    with p sub have "key_texts_distinct w" by auto
    with PDict.IH [of p w] p kw have "json_loads (json_dumps w) = str_keys w" by simp
    with kw show "map_prod KStr json_loads (map_prod key_text json_dumps p) =
                  map_prod (\<lambda>k. KStr (key_text k)) str_keys p"
      by simp
  qed
  ultimately show ?case by simp
qed simp_all

lemma py_opt_leaf: "key_texts_distinct (py_opt v)" "str_keys (py_opt v) = py_opt v"
  by (simp_all add: py_opt_def split: option.splits)

lemma py_label_leaf: "key_texts_distinct (py_label v)" "str_keys (py_label v) = py_label v"
  by (simp_all add: py_label_def split: option.splits)

lemma iso_rec_keys: "key_texts_distinct (py_of_iso_rec r)" "str_keys (py_of_iso_rec r) = py_of_iso_rec r"
  by (simp_all add: py_of_iso_rec_def py_opt_leaf)

lemma data_keys:
  "distinct (map fst (d_isotopes d)) \<Longrightarrow> key_texts_distinct (py_of_data d)"
  "str_keys (py_of_data d) = py_reloaded_data d"
proof -
  assume "distinct (map fst (d_isotopes d))"
  then have "distinct (map (\<lambda>p. str_int (fst p)) (d_isotopes d))"
    using distinct_map [of str_int "map fst (d_isotopes d)"] inj_str_int
    by (simp add: comp_def inj_on_def inj_def)
  then show "key_texts_distinct (py_of_data d)"
    by (simp add: py_of_data_def py_label_leaf iso_rec_keys list_all_iff comp_def)
next
  show "str_keys (py_of_data d) = py_reloaded_data d"
    by (simp add: py_of_data_def py_reloaded_data_def py_label_leaf iso_rec_keys comp_def)
qed

lemma element_data_keys_distinct:
  assumes "distinct (map fst ed)" and "\<forall>p \<in> set ed. distinct (map fst (d_isotopes (snd p)))"
  shows "key_texts_distinct (py_of_element_data ed)"
proof -
  from assms(1) have "distinct (map (\<lambda>p. fst p) ed)" by simp
  with assms(2) show ?thesis
    by (simp add: py_of_element_data_def data_keys list_all_iff comp_def)
qed

lemma str_keys_element_data: "str_keys (py_of_element_data ed) = py_reloaded ed"
  by (simp add: py_of_element_data_def py_reloaded_def data_keys comp_def)

lemma output_isotope_keys:
  "(k, d) \<in> set (element_data els nmr_data) \<Longrightarrow> distinct (map fst (d_isotopes d))"
proof -
  assume "(k, d) \<in> set (element_data els nmr_data)"
  from element_data_origin [OF this] obtain el
    where "element_record nmr_data el = Some (k, d)" by blast
  from element_record_SomeD [OF this] show ?thesis
    by (simp add: element_scan_eq keys_distinct)
qed

subsection \<open>The first of the best is the pointer\<close>

lemma follows_present:
  assumes "follows q ptr v xs" and "first_best q xs k" and "0 < abundance (xs ! k)"
  shows "ptr = Some (isotope (xs ! k)) \<and> v = abundance (xs ! k)"
proof -
  from assms(2) have k: "k < length xs" "q k"
    and best: "\<forall>j < length xs. q j \<longrightarrow> abundance (xs ! j) \<le> abundance (xs ! k)"
    and first: "\<forall>j < k. q j \<longrightarrow> abundance (xs ! j) \<noteq> abundance (xs ! k)"
    by (simp_all add: first_best_def)
  from follows_bound [OF assms(1) k] have le: "abundance (xs ! k) \<le> v" .
  with assms(3) have v: "0 < v" by simp
  with assms(1) obtain A where A: "ptr = Some A"
    by (cases ptr) (auto simp: follows_def)
  with assms(1) obtain k' where k': "k' < length xs" "q k'" "isotope (xs ! k') = A"
    "abundance (xs ! k') = v" "\<forall>j < k'. q j \<longrightarrow> abundance (xs ! j) < v"
    by (auto simp: follows_def)
  from best k'(1,2,4) le have eq: "abundance (xs ! k) = v" by fastforce
  have "k = k'"
  proof (rule ccontr)
    assume "k \<noteq> k'"
    then consider "k < k'" | "k' < k" by linarith
    then show False
    proof cases
      case 1
      with k'(5) k(2) eq show False by fastforce
    next
      case 2
      with first k'(2,4) eq show False by fastforce
    qed
  qed
  with A k'(3) eq show ?thesis by simp
qed

lemma retained_positive:
  "\<forall>i \<in> set (isos el). 0 \<le> abundance i \<Longrightarrow> k < length (isos el) \<Longrightarrow>
   retained_at nmr_data el k \<Longrightarrow> 0 < abundance (isos el ! k)"
proof -
  assume a: "\<forall>i \<in> set (isos el). 0 \<le> abundance i" "k < length (isos el)"
    "retained_at nmr_data el k"
  from a(3) have "abundance (isos el ! k) \<noteq> 0"
    by (simp add: retained_at_def kept_at_def kept_def)
  moreover from a(1,2) have "0 \<le> abundance (isos el ! k)" by simp
  ultimately show ?thesis by simp
qed

lemma label_Some: "A \<noteq> 0 \<Longrightarrow> label (Some A) = Some (str_int A)"
  by (simp add: label_def truthy_int_def)

lemma retained_emitted:
  assumes "\<forall>i \<in> set (isos el). 0 \<le> abundance i" and "k < length (isos el)"
    and "retained_at nmr_data el k"
  shows "most_iso (element_scan nmr_data el) \<noteq> None"
proof
  assume n: "most_iso (element_scan nmr_data el) = None"
  from element_follows(1) [of nmr_data el] n
  have "most_iso_ab (element_scan nmr_data el) = 0" by (simp add: follows_def)
  with follows_bound [OF element_follows(1) assms(2,3)] retained_positive [OF assms]
  show False by simp
qed

lemma element_record_Some:
  "most_iso (element_scan nmr_data el) \<noteq> None \<Longrightarrow>
   \<exists>d. element_record nmr_data el = Some (out_symbol (symbol el), d) \<and>
       maxiso d = label (most_iso (element_scan nmr_data el)) \<and>
       maxiso_NMR d = label (most_NMR_iso (element_scan nmr_data el)) \<and>
       maxiso_Q d = label (most_Q_iso (element_scan nmr_data el))"
  by (simp add: element_record_def Let_def)

lemma iso_step_no_gain:
  "abundance i \<le> most_iso_ab st \<Longrightarrow>
     most_iso (iso_step symb nmr st i) = most_iso st \<and>
     most_iso_ab (iso_step symb nmr st i) = most_iso_ab st"
  "abundance i \<le> most_NMR_iso_ab st \<Longrightarrow>
     most_NMR_iso (iso_step symb nmr st i) = most_NMR_iso st \<and>
     most_NMR_iso_ab (iso_step symb nmr st i) = most_NMR_iso_ab st"
  "abundance i \<le> most_Q_iso_ab st \<Longrightarrow>
     most_Q_iso (iso_step symb nmr st i) = most_Q_iso st \<and>
     most_Q_iso_ab (iso_step symb nmr st i) = most_Q_iso_ab st"
  by (cases "kept nmr st i";
      simp add: iso_step_skip iso_step_most_iso iso_step_most_NMR_iso iso_step_most_Q_iso max_def)+

section \<open>The retention rule\<close>

text \<open>
  Claim C1.  An isotope of abundance other than zero whose spin the NMR table does not
  give is dropped exactly when its abundance is below the lower of the running NMR and
  quadrupole maxima: then the loop state is unchanged (nothing is recorded and no maximum
  moves); otherwise it is recorded under its mass number with spin 0.  In the scenario of
  an element with the isotopes \<open>a\<close> (abundance 0.6, spin 0.5) and then \<open>b\<close> (abundance 0.9,
  no spin), the element is emitted and \<open>b\<close> is recorded with spin 0.
\<close>

theorem retention_rule:
  "(abundance i \<noteq> 0 \<and> nmr_I (iso_nmr nmr i) = None \<longrightarrow>
      (if abundance i < min (most_NMR_iso_ab st) (most_Q_iso_ab st)
       then iso_step symb nmr st i = st
       else isotopes (iso_step symb nmr st i) =
              dict_set (isotope i)
                \<lparr>rec_A = isotope i, rec_mass = (if symb = ''Mu'' then Mu_mass else mass i),
                 rec_abundance = abundance i, rec_spin = Some 0,
                 rec_gamma = nmr_gamma (iso_nmr nmr i), rec_Q = nmr_Q (iso_nmr nmr i)\<rparr>
                (isotopes st))) \<and>
   (isos el = [a, b] \<and>
    abundance a = 0.6 \<and> nmr_I (iso_nmr (nmr_for nmr_data (out_symbol (symbol el))) a) = Some 0.5 \<and>
    abundance b = 0.9 \<and> nmr_I (iso_nmr (nmr_for nmr_data (out_symbol (symbol el))) b) = None \<longrightarrow>
      (\<exists>k d r. element_record nmr_data el = Some (k, d) \<and>
               map_of (d_isotopes d) (isotope b) = Some r \<and>
               rec_abundance r = 0.9 \<and> rec_spin r = Some 0))"
proof (intro conjI impI)
  assume h: "abundance i \<noteq> 0 \<and> nmr_I (iso_nmr nmr i) = None"
  show "if abundance i < min (most_NMR_iso_ab st) (most_Q_iso_ab st)
       then iso_step symb nmr st i = st
       else isotopes (iso_step symb nmr st i) =
              dict_set (isotope i)
                \<lparr>rec_A = isotope i, rec_mass = (if symb = ''Mu'' then Mu_mass else mass i),
                 rec_abundance = abundance i, rec_spin = Some 0,
                 rec_gamma = nmr_gamma (iso_nmr nmr i), rec_Q = nmr_Q (iso_nmr nmr i)\<rparr>
                (isotopes st)"
  proof (cases "abundance i < min (most_NMR_iso_ab st) (most_Q_iso_ab st)")
    case True
    with h have "\<not> kept nmr st i" by (simp add: kept_def)
    with True show ?thesis by (simp add: iso_step_skip)
  next
    case False
    with h have "kept nmr st i" by (simp add: kept_def)
    from iso_step_isotopes [OF this] h False show ?thesis
      by (auto simp add: new_rec_def spin_of_def)
  qed
next
  let ?symb = "out_symbol (symbol el)"
  let ?nmr = "nmr_for nmr_data ?symb"
  assume h: "isos el = [a, b] \<and>
    abundance a = 0.6 \<and> nmr_I (iso_nmr ?nmr a) = Some 0.5 \<and>
    abundance b = 0.9 \<and> nmr_I (iso_nmr ?nmr b) = None"
  let ?s1 = "iso_step ?symb ?nmr scan_init a"
  let ?s2 = "iso_step ?symb ?nmr ?s1 b"
  have ka: "kept ?nmr scan_init a" using h by (simp add: kept_def)
  have m1: "most_iso ?s1 = Some (isotope a)" "most_iso_ab ?s1 = 0.6"
    "most_NMR_iso_ab ?s1 = 0.6" "most_Q_iso_ab ?s1 \<le> 0.6"
    using h iso_step_most_iso [OF ka, of ?symb] iso_step_most_NMR_iso [OF ka, of ?symb]
      iso_step_most_Q_iso [OF ka, of ?symb]
    by (simp_all add: scan_init_def spin_of_def truthy_def)
  have kb: "kept ?nmr ?s1 b" using h m1 by (simp add: kept_def)
  have scan: "element_scan nmr_data el = ?s2"
    using h by (simp add: element_scan_eq scan_isotopes_def)
  have "most_iso ?s2 \<noteq> None"
    using iso_step_most_iso [OF kb, of ?symb] m1 by simp
  moreover have "map_of (isotopes ?s2) (isotope b) = Some (new_rec ?symb ?nmr b)"
    by (simp add: iso_step_isotopes [OF kb] map_of_dict_set)
  moreover have "rec_abundance (new_rec ?symb ?nmr b) = 0.9"
    "rec_spin (new_rec ?symb ?nmr b) = Some 0"
    using h by (simp_all add: new_rec_def spin_of_def)
  ultimately show "\<exists>k d r. element_record nmr_data el = Some (k, d) \<and>
               map_of (d_isotopes d) (isotope b) = Some r \<and>
               rec_abundance r = 0.9 \<and> rec_spin r = Some 0"
    by (simp add: element_record_def scan Let_def)
qed

theorem retention_rule_witness:
  "(abundance chlorine_37 \<noteq> 0 \<and>
    nmr_I (iso_nmr (nmr_for sample_nmr ''Cl'') chlorine_37) = None \<and>
    abundance chlorine_37 <
      min (most_NMR_iso_ab (iso_step ''Cl'' (nmr_for sample_nmr ''Cl'') scan_init chlorine_35))
          (most_Q_iso_ab (iso_step ''Cl'' (nmr_for sample_nmr ''Cl'') scan_init chlorine_35)) \<and>
    iso_step ''Cl'' (nmr_for sample_nmr ''Cl'')
      (iso_step ''Cl'' (nmr_for sample_nmr ''Cl'') scan_init chlorine_35) chlorine_37 =
    iso_step ''Cl'' (nmr_for sample_nmr ''Cl'') scan_init chlorine_35) \<and>
   (isos scenario_element = [scenario_a, scenario_b] \<and>
    abundance scenario_a = 0.6 \<and>
    nmr_I (iso_nmr (nmr_for scenario_nmr (out_symbol (symbol scenario_element))) scenario_a) = Some 0.5 \<and>
    abundance scenario_b = 0.9 \<and>
    nmr_I (iso_nmr (nmr_for scenario_nmr (out_symbol (symbol scenario_element))) scenario_b) = None \<and>
    (\<exists>k d r. element_record scenario_nmr scenario_element = Some (k, d) \<and>
             map_of (d_isotopes d) (isotope scenario_b) = Some r \<and>
             rec_abundance r = 0.9 \<and> rec_spin r = Some 0))"
proof -
  have h1: "abundance chlorine_37 \<noteq> 0 \<and>
    nmr_I (iso_nmr (nmr_for sample_nmr ''Cl'') chlorine_37) = None"
    by (simp add: sample_defs eval_defs)
  have h2: "abundance chlorine_37 <
      min (most_NMR_iso_ab (iso_step ''Cl'' (nmr_for sample_nmr ''Cl'') scan_init chlorine_35))
          (most_Q_iso_ab (iso_step ''Cl'' (nmr_for sample_nmr ''Cl'') scan_init chlorine_35))"
    by (simp add: sample_defs eval_defs)
  have h3: "isos scenario_element = [scenario_a, scenario_b] \<and>
    abundance scenario_a = 0.6 \<and>
    nmr_I (iso_nmr (nmr_for scenario_nmr (out_symbol (symbol scenario_element))) scenario_a) = Some 0.5 \<and>
    abundance scenario_b = 0.9 \<and>
    nmr_I (iso_nmr (nmr_for scenario_nmr (out_symbol (symbol scenario_element))) scenario_b) = None"
    by (simp add: sample_defs eval_defs)
  from h1 h2 h3
    retention_rule [where i = chlorine_37 and nmr = "nmr_for sample_nmr ''Cl''"
      and st = "iso_step ''Cl'' (nmr_for sample_nmr ''Cl'') scan_init chlorine_35"
      and symb = "''Cl''" and el = scenario_element and a = scenario_a and b = scenario_b
      and nmr_data = scenario_nmr]
  show ?thesis by simp
qed

section \<open>The three pointers\<close>

text \<open>
  Claim C2.  In every record of the output, each of \<open>maxiso\<close>, \<open>maxiso_NMR\<close> and
  \<open>maxiso_Q\<close>, when it is not \<open>None\<close>, is the label \<open>str(A)\<close> of a key \<open>A\<close> of the
  \<open>isotopes\<close> dict of the record.  When each element of the table lists every mass number
  once (an element iterates its isotopes by mass number), the record under the key that
  \<open>maxiso\<close> names has an abundance that no record of the element exceeds.
\<close>

theorem most_abundant_pointers:
  assumes "(key, d) \<in> set (element_data els nmr_data)"
  shows "(\<forall>s. maxiso d = Some s \<longrightarrow> (\<exists>A \<in> fst ` set (d_isotopes d). s = str_int A)) \<and>
         (\<forall>s. maxiso_NMR d = Some s \<longrightarrow> (\<exists>A \<in> fst ` set (d_isotopes d). s = str_int A)) \<and>
         (\<forall>s. maxiso_Q d = Some s \<longrightarrow> (\<exists>A \<in> fst ` set (d_isotopes d). s = str_int A)) \<and>
         ((\<forall>el \<in> set els. distinct (map isotope (isos el))) \<longrightarrow>
            (\<forall>s. maxiso d = Some s \<longrightarrow>
               (\<exists>A r. s = str_int A \<and> map_of (d_isotopes d) A = Some r \<and>
                  (\<forall>(B, r') \<in> set (d_isotopes d). rec_abundance r' \<le> rec_abundance r))))"
proof -
  from element_data_origin [OF assms] obtain el
    where el: "el \<in> set els" "element_record nmr_data el = Some (key, d)" by blast
  have "\<exists>A r. s = str_int A \<and> map_of (d_isotopes d) A = Some r \<and>
          (\<forall>(B, r') \<in> set (d_isotopes d). rec_abundance r' \<le> rec_abundance r)"
    if "\<forall>el \<in> set els. distinct (map isotope (isos el))" "maxiso d = Some s" for s
    using maxiso_record [OF el(2) _ that(2)] that(1) el(1) by blast
  with pointer_key [OF el(2)] show ?thesis by blast
qed

theorem most_abundant_pointers_witness:
  "(''H'', sample_H) \<in> set (element_data sample_elements sample_nmr) \<and>
   maxiso sample_H = Some ''1'' \<and> maxiso_NMR sample_H = Some ''1'' \<and>
   maxiso_Q sample_H = Some ''2'' \<and>
   list_all (\<lambda>el. distinct (map isotope (isos el))) sample_elements \<and>
   (\<exists>A \<in> fst ` set (d_isotopes sample_H). ''1'' = str_int A) \<and>
   (\<exists>A \<in> fst ` set (d_isotopes sample_H). ''2'' = str_int A) \<and>
   (\<exists>A r. ''1'' = str_int A \<and> map_of (d_isotopes sample_H) A = Some r \<and>
      (\<forall>(B, r') \<in> set (d_isotopes sample_H). rec_abundance r' \<le> rec_abundance r))"
proof -
  have h1: "(''H'', sample_H) \<in> set (element_data sample_elements sample_nmr)"
    by (simp add: sample_output)
  have h2: "maxiso sample_H = Some ''1''" "maxiso_NMR sample_H = Some ''1''"
    "maxiso_Q sample_H = Some ''2''"
    by (simp_all add: sample_H_def)
  have h3: "list_all (\<lambda>el. distinct (map isotope (isos el))) sample_elements"
    by (simp add: sample_defs)
  then have h4: "\<forall>el \<in> set sample_elements. distinct (map isotope (isos el))"
    by (simp add: list_all_iff)
  from most_abundant_pointers [OF h1] h1 h2 h3 h4 show ?thesis by simp
qed

section \<open>Reading the JSON back\<close>

text \<open>
  Claim C3, as amended.  Reading the JSON that \<open>json.dumps\<close> writes for \<open>element_data\<close>
  gives \<open>element_data\<close> with every integer key \<open>A\<close> of an \<open>isotopes\<close> dict replaced by the
  string \<open>str(A)\<close>; the symbols, the other keys, the numbers, the strings and the \<open>None\<close>
  values come back as they were.
\<close>

theorem json_reloaded:
  "json_loads (json_dumps (py_of_element_data (element_data els nmr_data))) =
   py_reloaded (element_data els nmr_data)"
proof -
  have "key_texts_distinct (py_of_element_data (element_data els nmr_data))"
  proof (rule element_data_keys_distinct)
    show "distinct (map fst (element_data els nmr_data))" by (rule element_data_distinct)
    show "\<forall>p \<in> set (element_data els nmr_data). distinct (map fst (d_isotopes (snd p)))"
      using output_isotope_keys [of _ _ els nmr_data] by auto
  qed
  then show ?thesis by (simp add: loads_dumps str_keys_element_data)
qed

text \<open>
  Claim C3 as stated fails for the sample tables: the object read back is not equal to
  \<open>element_data\<close> (which is equal to itself), since its \<open>isotopes\<close> dicts have the keys
  \<open>"1"\<close>, \<open>"2"\<close>, \<open>"35"\<close> where \<open>element_data\<close> has 1, 2, 35.
\<close>

theorem json_round_trip_counterexample:
  "py_eq (py_of_element_data (element_data sample_elements sample_nmr))
         (py_of_element_data (element_data sample_elements sample_nmr)) \<and>
   \<not> py_eq (json_loads (json_dumps (py_of_element_data (element_data sample_elements sample_nmr))))
           (py_of_element_data (element_data sample_elements sample_nmr))"
  by (simp add: sample_output sample_Mu_def sample_H_def sample_Cl_def sample_Mu_1_def
        sample_H_1_def sample_H_2_def sample_Cl_35_def
        py_of_element_data_def py_of_data_def py_of_iso_rec_def py_opt_def py_label_def
        dict_of_pairs_def str_int_def str_nat.simps digit_char_def)

section \<open>Elements that are left out\<close>

text \<open>
  Claim C4.  For an element of a table in which no two elements have the same output
  symbol and whose abundances are not negative: the key of the element is missing from
  the output exactly when its loop ends with \<open>most_iso\<close> still \<open>None\<close>, and that is the
  case exactly when every isotope of the element has abundance zero (in particular when
  it has no isotopes).
\<close>

theorem element_left_out:
  assumes "el \<in> set els"
    and "distinct (map (\<lambda>e. out_symbol (symbol e)) els)"
    and "\<forall>i \<in> set (isos el). 0 \<le> abundance i"
  shows "(out_symbol (symbol el) \<notin> fst ` set (element_data els nmr_data) \<longleftrightarrow>
            most_iso (element_scan nmr_data el) = None) \<and>
         (most_iso (element_scan nmr_data el) = None \<longleftrightarrow>
            (\<forall>i \<in> set (isos el). abundance i = 0))"
proof
  show "out_symbol (symbol el) \<notin> fst ` set (element_data els nmr_data) \<longleftrightarrow>
            most_iso (element_scan nmr_data el) = None"
  proof
    assume a: "out_symbol (symbol el) \<notin> fst ` set (element_data els nmr_data)"
    show "most_iso (element_scan nmr_data el) = None"
    proof (rule ccontr)
      assume "most_iso (element_scan nmr_data el) \<noteq> None"
      then obtain p where p: "element_record nmr_data el = Some p"
        using element_record_None_iff [of nmr_data el] by auto
      obtain k d where kd: "p = (k, d)" by (cases p)
      with p have "k = out_symbol (symbol el)" by (simp add: element_record_key)
      with p kd assms(1) have "out_symbol (symbol el) \<in> fst ` set (element_data els nmr_data)"
        by (auto simp: element_data_keys)
      with a show False by simp
    qed
  next
    assume n: "most_iso (element_scan nmr_data el) = None"
    show "out_symbol (symbol el) \<notin> fst ` set (element_data els nmr_data)"
    proof
      assume "out_symbol (symbol el) \<in> fst ` set (element_data els nmr_data)"
      then obtain e d where e: "e \<in> set els"
        "element_record nmr_data e = Some (out_symbol (symbol el), d)"
        by (auto simp: element_data_keys)
      then have "out_symbol (symbol e) = out_symbol (symbol el)"
        using element_record_key by metis
      with assms(1,2) e(1) have "e = el"
        by (metis (mono_tags, lifting) distinct_map inj_onD)
      with e(2) n show False by (simp add: element_record_None_iff [symmetric])
    qed
  qed
next
  show "most_iso (element_scan nmr_data el) = None \<longleftrightarrow> (\<forall>i \<in> set (isos el). abundance i = 0)"
    unfolding element_scan_eq using assms(3) by (rule most_iso_None_iff)
qed

theorem element_left_out_witness:
  "sample_elements ! 3 \<in> set sample_elements \<and> symbol (sample_elements ! 3) = ''Tc'' \<and>
   distinct (map (\<lambda>e. out_symbol (symbol e)) sample_elements) \<and>
   list_all (\<lambda>i. 0 \<le> abundance i) (isos (sample_elements ! 3)) \<and>
   list_all (\<lambda>i. abundance i = 0) (isos (sample_elements ! 3)) \<and>
   most_iso (element_scan sample_nmr (sample_elements ! 3)) = None \<and>
   ''Tc'' \<notin> fst ` set (element_data sample_elements sample_nmr) \<and>
   sample_elements ! 1 \<in> set sample_elements \<and> symbol (sample_elements ! 1) = ''H'' \<and>
   list_all (\<lambda>i. 0 \<le> abundance i) (isos (sample_elements ! 1)) \<and>
   \<not> list_all (\<lambda>i. abundance i = 0) (isos (sample_elements ! 1)) \<and>
   most_iso (element_scan sample_nmr (sample_elements ! 1)) \<noteq> None \<and>
   ''H'' \<in> fst ` set (element_data sample_elements sample_nmr)"
proof -
  have d: "distinct (map (\<lambda>e. out_symbol (symbol e)) sample_elements)"
    by (simp add: sample_defs out_symbol_def)
  have tc: "sample_elements ! 3 \<in> set sample_elements" "symbol (sample_elements ! 3) = ''Tc''"
    "out_symbol (symbol (sample_elements ! 3)) = ''Tc''"
    "list_all (\<lambda>i. 0 \<le> abundance i) (isos (sample_elements ! 3))"
    "list_all (\<lambda>i. abundance i = 0) (isos (sample_elements ! 3))"
    by (simp_all add: sample_defs out_symbol_def)
  have h: "sample_elements ! 1 \<in> set sample_elements" "symbol (sample_elements ! 1) = ''H''"
    "out_symbol (symbol (sample_elements ! 1)) = ''H''"
    "list_all (\<lambda>i. 0 \<le> abundance i) (isos (sample_elements ! 1))"
    "\<not> list_all (\<lambda>i. abundance i = 0) (isos (sample_elements ! 1))"
    by (simp_all add: sample_defs out_symbol_def)
  from tc(4) have tc_nn: "\<forall>i \<in> set (isos (sample_elements ! 3)). 0 \<le> abundance i"
    by (simp add: list_all_iff)
  from h(4) have h_nn: "\<forall>i \<in> set (isos (sample_elements ! 1)). 0 \<le> abundance i"
    by (simp add: list_all_iff)
  from tc(5) have tc_z: "\<forall>i \<in> set (isos (sample_elements ! 3)). abundance i = 0"
    by (simp add: list_all_iff)
  from h(5) have h_nz: "\<not> (\<forall>i \<in> set (isos (sample_elements ! 1)). abundance i = 0)"
    by (simp add: list_all_iff)
  from element_left_out [OF tc(1) d tc_nn, of sample_nmr] tc(3) tc_z
  have 1: "most_iso (element_scan sample_nmr (sample_elements ! 3)) = None"
    "''Tc'' \<notin> fst ` set (element_data sample_elements sample_nmr)"
    by simp_all
  from element_left_out [OF h(1) d h_nn, of sample_nmr] h(3) h_nz
  have 2: "most_iso (element_scan sample_nmr (sample_elements ! 1)) \<noteq> None"
    "''H'' \<in> fst ` set (element_data sample_elements sample_nmr)"
    by auto
  from 1 2 d tc(1,2,4,5) h(1,2,4,5) show ?thesis by simp
qed

section \<open>Isotopes of abundance zero\<close>

text \<open>
  Claim C5.  An isotope whose abundance is zero leaves the loop state as it is, so it is
  not recorded and moves none of the three maxima; the output of the program is the
  output for the table without these isotopes; and no record of the output has
  abundance zero.
\<close>

theorem zero_abundance_skipped:
  "(abundance i = 0 \<longrightarrow> iso_step symb nmr st i = st) \<and>
   element_data (map drop_zero els) nmr_data = element_data els nmr_data \<and>
   (\<forall>(k, d) \<in> set (element_data els nmr_data).
      \<forall>(A, r) \<in> set (d_isotopes d). rec_abundance r \<noteq> 0)"
proof (intro conjI impI)
  assume "abundance i = 0"
  then show "iso_step symb nmr st i = st" by (simp add: iso_step_skip kept_def)
next
  show "element_data (map drop_zero els) nmr_data = element_data els nmr_data"
    by (rule element_data_drop_zero)
next
  show "\<forall>(k, d) \<in> set (element_data els nmr_data).
      \<forall>(A, r) \<in> set (d_isotopes d). rec_abundance r \<noteq> 0"
  proof (clarify)
    fix k d A r
    assume "(k, d) \<in> set (element_data els nmr_data)" "(A, r) \<in> set (d_isotopes d)"
      "rec_abundance r = 0"
    with output_recs [of k d els nmr_data A r] show False
      by (auto simp: new_rec_def)
  qed
qed

theorem zero_abundance_skipped_witness:
  "abundance tritium = 0 \<and>
   iso_step ''H'' (nmr_for sample_nmr ''H'') scan_init tritium = scan_init \<and>
   element_data (map drop_zero sample_elements) sample_nmr =
     element_data sample_elements sample_nmr \<and>
   (''H'', sample_H) \<in> set (element_data sample_elements sample_nmr) \<and>
   (2, sample_H_2) \<in> set (d_isotopes sample_H) \<and>
   rec_abundance sample_H_2 \<noteq> 0"
proof -
  have h1: "abundance tritium = 0" by (simp add: tritium_def)
  have h2: "(''H'', sample_H) \<in> set (element_data sample_elements sample_nmr)"
    by (simp add: sample_output)
  have h3: "(2, sample_H_2) \<in> set (d_isotopes sample_H)"
    by (simp add: sample_H_def)
  from zero_abundance_skipped [where i = tritium and symb = "''H''"
      and nmr = "nmr_for sample_nmr ''H''" and st = scan_init
      and els = sample_elements and nmr_data = sample_nmr] h1 h2 h3
  show ?thesis by fastforce
qed

section \<open>Spin of a recorded isotope\<close>

text \<open>
  Claim C6.  No record of the output has an absent spin.  An isotope for which the NMR
  table gives no spin either leaves the loop state as it is (it is dropped) or is
  recorded under its mass number with spin 0.
\<close>

theorem spin_never_absent:
  "(\<forall>(k, d) \<in> set (element_data els nmr_data).
      \<forall>(A, r) \<in> set (d_isotopes d). rec_spin r \<noteq> None) \<and>
   (nmr_I (iso_nmr nmr i) = None \<longrightarrow>
      iso_step symb nmr st i = st \<or>
      (\<exists>r. map_of (isotopes (iso_step symb nmr st i)) (isotope i) = Some r \<and>
           rec_spin r = Some 0))"
proof (intro conjI impI)
  show "\<forall>(k, d) \<in> set (element_data els nmr_data).
      \<forall>(A, r) \<in> set (d_isotopes d). rec_spin r \<noteq> None"
  proof -
    have "rec_spin r \<noteq> None"
      if "(k, d) \<in> set (element_data els nmr_data)" "(A, r) \<in> set (d_isotopes d)"
      for k d A r
      using output_recs [OF that] by (auto simp: new_rec_def spin_of_def split: option.splits)
    then show ?thesis by blast
  qed
next
  assume h: "nmr_I (iso_nmr nmr i) = None"
  show "iso_step symb nmr st i = st \<or>
      (\<exists>r. map_of (isotopes (iso_step symb nmr st i)) (isotope i) = Some r \<and>
           rec_spin r = Some 0)"
  proof (cases "kept nmr st i")
    case False
    then show ?thesis by (simp add: iso_step_skip)
  next
    case True
    with h have "map_of (isotopes (iso_step symb nmr st i)) (isotope i) = Some (new_rec symb nmr i)"
      "rec_spin (new_rec symb nmr i) = Some 0"
      by (simp_all add: iso_step_isotopes map_of_dict_set new_rec_def spin_of_def)
    then show ?thesis by blast
  qed
qed

theorem spin_never_absent_witness:
  "(''Mu'', sample_Mu) \<in> set (element_data sample_elements sample_nmr) \<and>
   (1, sample_Mu_1) \<in> set (d_isotopes sample_Mu) \<and>
   rec_spin sample_Mu_1 \<noteq> None \<and>
   nmr_I (iso_nmr (nmr_for sample_nmr ''Cl'') chlorine_37) = None \<and>
   iso_step ''Cl'' (nmr_for sample_nmr ''Cl'') scan_init chlorine_37 \<noteq> scan_init \<and>
   (\<exists>r. map_of (isotopes (iso_step ''Cl'' (nmr_for sample_nmr ''Cl'') scan_init chlorine_37))
          (isotope chlorine_37) = Some r \<and> rec_spin r = Some 0)"
proof -
  have h1: "(''Mu'', sample_Mu) \<in> set (element_data sample_elements sample_nmr)"
    by (simp add: sample_output)
  have h2: "(1, sample_Mu_1) \<in> set (d_isotopes sample_Mu)"
    by (simp add: sample_Mu_def)
  have h3: "nmr_I (iso_nmr (nmr_for sample_nmr ''Cl'') chlorine_37) = None"
    by (simp add: sample_defs eval_defs)
  have h4: "most_iso (iso_step ''Cl'' (nmr_for sample_nmr ''Cl'') scan_init chlorine_37) \<noteq>
            most_iso scan_init"
    by (simp add: sample_defs eval_defs)
  then have h5: "iso_step ''Cl'' (nmr_for sample_nmr ''Cl'') scan_init chlorine_37 \<noteq> scan_init"
    by auto
  from spin_never_absent [where els = sample_elements and nmr_data = sample_nmr
      and nmr = "nmr_for sample_nmr ''Cl''" and i = chlorine_37 and symb = "''Cl''"
      and st = scan_init] h1 h2 h3 h5
  show ?thesis by fastforce
qed

section \<open>The NMR pointer\<close>

text \<open>
  Claim C7.  When each element of the table lists every mass number once, the pointer
  \<open>maxiso_NMR\<close> of a record of the output, when it is not \<open>None\<close>, is the label of a key
  of the \<open>isotopes\<close> dict whose record has a truthy spin, and no record of the element
  with a truthy spin has a higher abundance.
\<close>

theorem most_abundant_NMR_pointer:
  assumes "(key, d) \<in> set (element_data els nmr_data)"
    and "\<forall>el \<in> set els. distinct (map isotope (isos el))"
    and "maxiso_NMR d = Some s"
  shows "\<exists>A r. s = str_int A \<and> map_of (d_isotopes d) A = Some r \<and> truthy (rec_spin r) \<and>
           (\<forall>(B, r') \<in> set (d_isotopes d). truthy (rec_spin r') \<longrightarrow>
              rec_abundance r' \<le> rec_abundance r)"
proof -
  from element_data_origin [OF assms(1)] obtain el
    where el: "el \<in> set els" "element_record nmr_data el = Some (key, d)" by blast
  from assms(2) el(1) have "distinct (map isotope (isos el))" by blast
  from maxiso_NMR_record [OF el(2) this assms(3)] show ?thesis .
qed

theorem most_abundant_NMR_pointer_witness:
  "(''H'', sample_H) \<in> set (element_data sample_elements sample_nmr) \<and>
   list_all (\<lambda>el. distinct (map isotope (isos el))) sample_elements \<and>
   maxiso_NMR sample_H = Some ''1'' \<and>
   (\<exists>A r. ''1'' = str_int A \<and> map_of (d_isotopes sample_H) A = Some r \<and> truthy (rec_spin r) \<and>
      (\<forall>(B, r') \<in> set (d_isotopes sample_H). truthy (rec_spin r') \<longrightarrow>
         rec_abundance r' \<le> rec_abundance r))"
proof -
  have h1: "(''H'', sample_H) \<in> set (element_data sample_elements sample_nmr)"
    by (simp add: sample_output)
  have h2: "maxiso_NMR sample_H = Some ''1''"
    by (simp add: sample_H_def)
  have h3: "list_all (\<lambda>el. distinct (map isotope (isos el))) sample_elements"
    by (simp add: sample_defs)
  then have h4: "\<forall>el \<in> set sample_elements. distinct (map isotope (isos el))"
    by (simp add: list_all_iff)
  from most_abundant_NMR_pointer [OF h1 h4 h2] h1 h2 h3 show ?thesis by simp
qed

section \<open>The neutron\<close>

text \<open>
  Claim C8.  No key and no \<open>symbol\<close> field of the output is \<open>n\<close>.  The element whose source
  symbol is \<open>n\<close> is stored, if it is stored at all, under the key \<open>Mu\<close> with symbol \<open>Mu\<close>, and
  then \<open>Mu\<close> is a key of the output; every isotope recorded under the key \<open>Mu\<close> has the mass
  0.113428913072988, whatever the mass of the source table.
\<close>

theorem neutron_as_muonium:
  "(\<forall>(k, d) \<in> set (element_data els nmr_data). k \<noteq> ''n'' \<and> d_symbol d \<noteq> ''n'') \<and>
   (\<forall>el \<in> set els. symbol el = ''n'' \<longrightarrow>
      (case element_record nmr_data el of
         None \<Rightarrow> True
       | Some (k, d) \<Rightarrow>
           k = ''Mu'' \<and> d_symbol d = ''Mu'' \<and> ''Mu'' \<in> fst ` set (element_data els nmr_data) \<and>
           (\<forall>(A, r) \<in> set (d_isotopes d). rec_mass r = 0.113428913072988))) \<and>
   (\<forall>(k, d) \<in> set (element_data els nmr_data). k = ''Mu'' \<longrightarrow>
      (\<forall>(A, r) \<in> set (d_isotopes d). rec_mass r = 0.113428913072988))"
proof (intro conjI)
  show "\<forall>(k, d) \<in> set (element_data els nmr_data). k \<noteq> ''n'' \<and> d_symbol d \<noteq> ''n''"
  proof (clarify)
    fix k d
    assume "(k, d) \<in> set (element_data els nmr_data)"
    from element_data_origin [OF this] obtain el
      where "element_record nmr_data el = Some (k, d)" by blast
    from element_record_SomeD [OF this]
    have "k = out_symbol (symbol el)" "d_symbol d = k" by simp_all
    then show "k \<noteq> ''n'' \<and> d_symbol d \<noteq> ''n''" by (simp add: out_symbol_def)
  qed
next
  show "\<forall>(k, d) \<in> set (element_data els nmr_data). k = ''Mu'' \<longrightarrow>
      (\<forall>(A, r) \<in> set (d_isotopes d). rec_mass r = 0.113428913072988)"
  proof (clarify)
    fix k d A r
    assume "(''Mu'', d) \<in> set (element_data els nmr_data)" "(A, r) \<in> set (d_isotopes d)"
    with output_recs [of "''Mu''" d els nmr_data A r]
    show "rec_mass r = 0.113428913072988" by (auto simp: new_rec_def Mu_mass_def)
  qed
next
  show "\<forall>el \<in> set els. symbol el = ''n'' \<longrightarrow>
      (case element_record nmr_data el of
         None \<Rightarrow> True
       | Some (k, d) \<Rightarrow>
           k = ''Mu'' \<and> d_symbol d = ''Mu'' \<and> ''Mu'' \<in> fst ` set (element_data els nmr_data) \<and>
           (\<forall>(A, r) \<in> set (d_isotopes d). rec_mass r = 0.113428913072988))"
  proof (intro ballI impI)
    fix el
    assume el: "el \<in> set els" "symbol el = ''n''"
    show "case element_record nmr_data el of
         None \<Rightarrow> True
       | Some (k, d) \<Rightarrow>
           k = ''Mu'' \<and> d_symbol d = ''Mu'' \<and> ''Mu'' \<in> fst ` set (element_data els nmr_data) \<and>
           (\<forall>(A, r) \<in> set (d_isotopes d). rec_mass r = 0.113428913072988)"
    proof (cases "element_record nmr_data el")
      case None
      then show ?thesis by simp
    next
      case (Some p)
      obtain k d where p: "p = (k, d)" by (cases p)
      from element_record_SomeD [OF Some [unfolded p]] el
      have k: "k = ''Mu''" and s: "d_symbol d = ''Mu''"
        and iso: "d_isotopes d = isotopes (scan_isotopes ''Mu'' (nmr_for nmr_data ''Mu'') scan_init (isos el))"
        by (simp_all add: out_symbol_def element_scan_eq)
      have key: "''Mu'' \<in> fst ` set (element_data els nmr_data)"
        using el Some p k by (auto simp: element_data_keys)
      have "\<forall>(A, r) \<in> set (d_isotopes d). rec_mass r = 0.113428913072988"
      proof (clarify)
        fix A r
        assume "(A, r) \<in> set (d_isotopes d)"
        with iso have "(A, r) \<in> set (isotopes (scan_isotopes ''Mu'' (nmr_for nmr_data ''Mu'') scan_init (isos el)))"
          by simp
        from recs_origin [OF this] show "rec_mass r = 0.113428913072988"
          by (auto simp: new_rec_def Mu_mass_def)
      qed
      with Some p k s key show ?thesis by simp
    qed
  qed
qed

theorem neutron_as_muonium_witness:
  "(''Mu'', sample_Mu) \<in> set (element_data sample_elements sample_nmr) \<and>
   d_symbol sample_Mu \<noteq> ''n'' \<and>
   hd sample_elements \<in> set sample_elements \<and>
   symbol (hd sample_elements) = ''n'' \<and>
   element_record sample_nmr (hd sample_elements) = Some (''Mu'', sample_Mu) \<and>
   ''Mu'' \<in> fst ` set (element_data sample_elements sample_nmr) \<and>
   (1, sample_Mu_1) \<in> set (d_isotopes sample_Mu) \<and>
   mass (hd (isos (hd sample_elements))) = 1.00866491597 \<and>
   rec_mass sample_Mu_1 = 0.113428913072988"
proof -
  have h1: "(''Mu'', sample_Mu) \<in> set (element_data sample_elements sample_nmr)"
    by (simp add: sample_output)
  have h2: "hd sample_elements \<in> set sample_elements" "symbol (hd sample_elements) = ''n''"
    "mass (hd (isos (hd sample_elements))) = 1.00866491597"
    by (simp_all add: sample_elements_def)
  have h3: "element_record sample_nmr (hd sample_elements) = Some (''Mu'', sample_Mu)"
    by (simp add: sample_defs eval_defs)
  have h4: "(1, sample_Mu_1) \<in> set (d_isotopes sample_Mu)"
    by (simp add: sample_Mu_def)
  from neutron_as_muonium [where els = sample_elements and nmr_data = sample_nmr] h1 h2 h3 h4
  show ?thesis by fastforce
qed

section \<open>The text on standard output\<close>

text \<open>
  Claim C9, as amended.  The script writes \<open>const nmrData = \<close>, the JSON encoding, a
  semicolon, a blank line, the line \<open>export default nmrData;\<close> and then one more newline,
  the one that \<open>print\<close> adds after the template's own: the output ends with an empty line.
\<close>

theorem emitted_text:
  "emitted jsonstr = spec_shape jsonstr @ [newline] \<and>
   emitted jsonstr =
     ''const nmrData = '' @ jsonstr @ '';'' @ [newline, newline] @
     ''export default nmrData;'' @ [newline, newline]"
  by (simp add: emitted_def print_text_def template_def spec_shape_def newline_def)

text \<open>
  Claim C9 as stated fails: for the JSON encoding \<open>{}\<close> of the empty mapping the output
  is not the text of the specification, but one character longer.
\<close>

theorem emitted_text_counterexample:
  "emitted ''{}'' \<noteq> spec_shape ''{}'' \<and> length (emitted ''{}'') = length (spec_shape ''{}'') + 1"
  by (simp add: emitted_def print_text_def template_def spec_shape_def newline_def)

section \<open>Ties\<close>

text \<open>
  Claim C10.  For an element whose abundances are not negative and whose mass numbers
  are not zero.  In each of the three categories (the isotopes that the loop keeps; for
  \<open>maxiso_NMR\<close> those kept with a truthy spin; for \<open>maxiso_Q\<close> those kept with a truthy
  quadrupole moment), let \<open>k\<close> be the first of the best positions: no isotope of the
  category has a higher abundance, and none of the same abundance comes earlier in the
  source order.  Then the element is emitted and its pointer of that category is present
  and is the label of the isotope at \<open>k\<close>, so that of several isotopes with the same
  maximal abundance the first one is named.  Conversely a pointer that is present is the
  label of the isotope at the first of the best positions.  The reason is in the loop
  body: an isotope whose abundance is not greater than a running maximum leaves that
  maximum and its pointer as they are.
\<close>

theorem ties_go_to_the_first:
  assumes "\<forall>i \<in> set (isos el). 0 \<le> abundance i \<and> isotope i \<noteq> 0"
  shows "(\<forall>k. first_best (retained_at nmr_data el) (isos el) k \<longrightarrow>
            (\<exists>d. element_record nmr_data el = Some (out_symbol (symbol el), d) \<and>
                 maxiso d = Some (str_int (isotope (isos el ! k))))) \<and>
         (\<forall>k. first_best (\<lambda>j. retained_at nmr_data el j \<and> truthy (spin_at nmr_data el j))
                 (isos el) k \<longrightarrow>
            (\<exists>d. element_record nmr_data el = Some (out_symbol (symbol el), d) \<and>
                 maxiso_NMR d = Some (str_int (isotope (isos el ! k))))) \<and>
         (\<forall>k. first_best (\<lambda>j. retained_at nmr_data el j \<and> truthy (Q_at nmr_data el j))
                 (isos el) k \<longrightarrow>
            (\<exists>d. element_record nmr_data el = Some (out_symbol (symbol el), d) \<and>
                 maxiso_Q d = Some (str_int (isotope (isos el ! k))))) \<and>
         (\<forall>key d. element_record nmr_data el = Some (key, d) \<longrightarrow>
            (\<forall>s. maxiso d = Some s \<longrightarrow>
               (\<exists>k. first_best (retained_at nmr_data el) (isos el) k \<and>
                    s = str_int (isotope (isos el ! k)))) \<and>
            (\<forall>s. maxiso_NMR d = Some s \<longrightarrow>
               (\<exists>k. first_best (\<lambda>j. retained_at nmr_data el j \<and> truthy (spin_at nmr_data el j))
                      (isos el) k \<and>
                    s = str_int (isotope (isos el ! k)))) \<and>
            (\<forall>s. maxiso_Q d = Some s \<longrightarrow>
               (\<exists>k. first_best (\<lambda>j. retained_at nmr_data el j \<and> truthy (Q_at nmr_data el j))
                      (isos el) k \<and>
                    s = str_int (isotope (isos el ! k))))) \<and>
         (\<forall>symb nmr st i.
            (abundance i \<le> most_iso_ab st \<longrightarrow>
               most_iso (iso_step symb nmr st i) = most_iso st) \<and>
            (abundance i \<le> most_NMR_iso_ab st \<longrightarrow>
               most_NMR_iso (iso_step symb nmr st i) = most_NMR_iso st) \<and>
            (abundance i \<le> most_Q_iso_ab st \<longrightarrow>
               most_Q_iso (iso_step symb nmr st i) = most_Q_iso st))"
proof -
  let ?st = "element_scan nmr_data el"
  let ?xs = "isos el"
  let ?q1 = "retained_at nmr_data el"
  let ?q2 = "\<lambda>j. retained_at nmr_data el j \<and> truthy (spin_at nmr_data el j)"
  let ?q3 = "\<lambda>j. retained_at nmr_data el j \<and> truthy (Q_at nmr_data el j)"
  from assms have nn: "\<forall>i \<in> set ?xs. 0 \<le> abundance i" by simp
  have nz: "isotope (?xs ! k) \<noteq> 0" if "k < length ?xs" for k
    using assms that by simp
  have present: "\<exists>d. element_record nmr_data el = Some (out_symbol (symbol el), d) \<and>
       maxiso d = label (most_iso ?st) \<and> maxiso_NMR d = label (most_NMR_iso ?st) \<and>
       maxiso_Q d = label (most_Q_iso ?st)"
    if "k < length ?xs" "retained_at nmr_data el k" for k
    using element_record_Some [OF retained_emitted [OF nn that]] .
  have a: "\<exists>d. element_record nmr_data el = Some (out_symbol (symbol el), d) \<and>
                 maxiso d = Some (str_int (isotope (?xs ! k)))"
    if fb: "first_best ?q1 ?xs k" for k
  proof -
    from fb have k: "k < length ?xs" "retained_at nmr_data el k"
      by (simp_all add: first_best_def)
    from follows_present [OF element_follows(1) fb retained_positive [OF nn k]]
    have "most_iso ?st = Some (isotope (?xs ! k))" by simp
    with present [OF k] nz [OF k(1)] show ?thesis by (auto simp: label_Some)
  qed
  have b: "\<exists>d. element_record nmr_data el = Some (out_symbol (symbol el), d) \<and>
                 maxiso_NMR d = Some (str_int (isotope (?xs ! k)))"
    if fb: "first_best ?q2 ?xs k" for k
  proof -
    from fb have k: "k < length ?xs" "retained_at nmr_data el k"
      by (simp_all add: first_best_def)
    from follows_present [OF element_follows(2) fb retained_positive [OF nn k]]
    have "most_NMR_iso ?st = Some (isotope (?xs ! k))" by simp
    with present [OF k] nz [OF k(1)] show ?thesis by (auto simp: label_Some)
  qed
  have c: "\<exists>d. element_record nmr_data el = Some (out_symbol (symbol el), d) \<and>
                 maxiso_Q d = Some (str_int (isotope (?xs ! k)))"
    if fb: "first_best ?q3 ?xs k" for k
  proof -
    from fb have k: "k < length ?xs" "retained_at nmr_data el k"
      by (simp_all add: first_best_def)
    from follows_present [OF element_follows(3) fb retained_positive [OF nn k]]
    have "most_Q_iso ?st = Some (isotope (?xs ! k))" by simp
    with present [OF k] nz [OF k(1)] show ?thesis by (auto simp: label_Some)
  qed
  have conv: "(\<forall>s. maxiso d = Some s \<longrightarrow>
               (\<exists>k. first_best ?q1 ?xs k \<and> s = str_int (isotope (?xs ! k)))) \<and>
            (\<forall>s. maxiso_NMR d = Some s \<longrightarrow>
               (\<exists>k. first_best ?q2 ?xs k \<and> s = str_int (isotope (?xs ! k)))) \<and>
            (\<forall>s. maxiso_Q d = Some s \<longrightarrow>
               (\<exists>k. first_best ?q3 ?xs k \<and> s = str_int (isotope (?xs ! k))))"
    if rec: "element_record nmr_data el = Some (key, d)" for key d
  proof -
    from element_record_SomeD [OF rec]
    have m: "maxiso d = label (most_iso ?st)" "maxiso_NMR d = label (most_NMR_iso ?st)"
      "maxiso_Q d = label (most_Q_iso ?st)" by simp_all
    have 1: "\<exists>k. first_best ?q1 ?xs k \<and> s = str_int (isotope (?xs ! k))"
      if "maxiso d = Some s" for s
    proof -
      from that m(1) label_SomeD obtain A where A: "most_iso ?st = Some A" "s = str_int A"
        by metis
      from follows_first_best [OF element_follows(1) [of nmr_data el, unfolded A(1)]] A(2)
      show ?thesis by blast
    qed
    have 2: "\<exists>k. first_best ?q2 ?xs k \<and> s = str_int (isotope (?xs ! k))"
      if "maxiso_NMR d = Some s" for s
    proof -
      from that m(2) label_SomeD obtain A where A: "most_NMR_iso ?st = Some A" "s = str_int A"
        by metis
      from follows_first_best [OF element_follows(2) [of nmr_data el, unfolded A(1)]] A(2)
      show ?thesis by blast
    qed
    have 3: "\<exists>k. first_best ?q3 ?xs k \<and> s = str_int (isotope (?xs ! k))"
      if "maxiso_Q d = Some s" for s
    proof -
      from that m(3) label_SomeD obtain A where A: "most_Q_iso ?st = Some A" "s = str_int A"
        by metis
      from follows_first_best [OF element_follows(3) [of nmr_data el, unfolded A(1)]] A(2)
      show ?thesis by blast
    qed
    from 1 2 3 show ?thesis by blast
  qed
  have step: "(abundance i \<le> most_iso_ab st \<longrightarrow>
               most_iso (iso_step symb nmr st i) = most_iso st) \<and>
            (abundance i \<le> most_NMR_iso_ab st \<longrightarrow>
               most_NMR_iso (iso_step symb nmr st i) = most_NMR_iso st) \<and>
            (abundance i \<le> most_Q_iso_ab st \<longrightarrow>
               most_Q_iso (iso_step symb nmr st i) = most_Q_iso st)" for symb nmr st i
    by (simp add: iso_step_no_gain)
  from a b c conv step show ?thesis by blast
qed

lemma tie_record: "element_record tie_nmr tie_element = Some (''Br'', tie_Br)"
  by (simp add: sample_defs eval_defs)

lemma all_below_two: "(\<forall>j < (2::nat). P j) \<longleftrightarrow> P 0 \<and> P 1"
  by (auto simp: less_2_cases_iff)

lemma tie_positions:
  "retained_at tie_nmr tie_element 0" "retained_at tie_nmr tie_element 1"
  "truthy (spin_at tie_nmr tie_element 0)" "truthy (spin_at tie_nmr tie_element 1)"
  "truthy (Q_at tie_nmr tie_element 0)" "truthy (Q_at tie_nmr tie_element 1)"
  "abundance (isos tie_element ! 0) = 50" "abundance (isos tie_element ! 1) = 50"
  "length (isos tie_element) = 2"
  by (simp_all add: retained_at_def kept_at_def kept_def spin_at_def Q_at_def el_nmr_def
        spin_of_def sample_defs eval_defs)

theorem ties_go_to_the_first_witness:
  "list_all (\<lambda>i. 0 \<le> abundance i \<and> isotope i \<noteq> 0) (isos tie_element) \<and>
   retained_at tie_nmr tie_element 0 \<and> retained_at tie_nmr tie_element 1 \<and>
   abundance (isos tie_element ! 0) = abundance (isos tie_element ! 1) \<and>
   isotope (isos tie_element ! 0) = 79 \<and> isotope (isos tie_element ! 1) = 81 \<and>
   first_best (retained_at tie_nmr tie_element) (isos tie_element) 0 \<and>
   first_best (\<lambda>j. retained_at tie_nmr tie_element j \<and> truthy (spin_at tie_nmr tie_element j))
     (isos tie_element) 0 \<and>
   first_best (\<lambda>j. retained_at tie_nmr tie_element j \<and> truthy (Q_at tie_nmr tie_element j))
     (isos tie_element) 0 \<and>
   (\<exists>d. element_record tie_nmr tie_element = Some (''Br'', d) \<and>
        maxiso d = Some ''79'' \<and> maxiso_NMR d = Some ''79'' \<and> maxiso_Q d = Some ''79'')"
proof -
  have h: "list_all (\<lambda>i. 0 \<le> abundance i \<and> isotope i \<noteq> 0) (isos tie_element)"
    "isotope (isos tie_element ! 0) = 79" "isotope (isos tie_element ! 1) = 81"
    "out_symbol (symbol tie_element) = ''Br''" "str_int 79 = ''79''"
    by (simp_all add: tie_element_def out_symbol_def str_int_def str_nat.simps digit_char_def)
  from h(1) have hyp: "\<forall>i \<in> set (isos tie_element). 0 \<le> abundance i \<and> isotope i \<noteq> 0"
    by (simp add: list_all_iff)
  have f: "first_best (retained_at tie_nmr tie_element) (isos tie_element) 0"
    "first_best (\<lambda>j. retained_at tie_nmr tie_element j \<and> truthy (spin_at tie_nmr tie_element j))
       (isos tie_element) 0"
    "first_best (\<lambda>j. retained_at tie_nmr tie_element j \<and> truthy (Q_at tie_nmr tie_element j))
       (isos tie_element) 0"
    using tie_positions by (simp_all add: first_best_def all_below_two)
  from ties_go_to_the_first [OF hyp, of tie_nmr] f h(2,4,5) tie_record
  have "\<exists>d. element_record tie_nmr tie_element = Some (''Br'', d) \<and>
        maxiso d = Some ''79'' \<and> maxiso_NMR d = Some ''79'' \<and> maxiso_Q d = Some ''79''"
    by (metis option.inject prod.inject)
  with h(1,2,3) f tie_positions(1,2,7,8) show ?thesis by simp
qed

end
